theory Spec2Isabelle
  imports Complex_Main "HOL-Library.Multiset" "HOL-Library.Log_Nat"
begin

text \<open>
  A shallow embedding of four modules of the engine: the query engine
  (\<^verbatim>\<open>app/engine/query_engine.py\<close>), the restoration of item prefabs
  (\<^verbatim>\<open>app/data/database/items.py\<close>), the validation of event lines in the editor
  (\<^verbatim>\<open>app/editor/event_editor/event_properties.py\<close>) and the free-roam state
  (\<^verbatim>\<open>app/engine/roam_state.py\<close>). The definitions come first, module by module, each with
  the example data its theorems are evaluated on; the theorems follow in the same order.
  A Python exception is a value: a function that may raise returns \<open>Inl\<close> of the error, or
  the error beside the state it had reached when the state matters.
\<close>

section \<open>Python values shared by the modelled modules\<close>

text \<open>
  The engine is dynamically typed: a lookup takes ``a unit or its nid'', ``a position or a
  unit''. The values that reach the modelled functions are collected in one datatype.
  Objects carry the attributes the source reads and no others, so an attribute the source
  probes with \<^verbatim>\<open>try\<close> (\<^verbatim>\<open>uid\<close> on a unit) is absent exactly when no line of the source
  reads it from that class.
\<close>

type_synonym nid = string
type_synonym pos = "int \<times> int"

datatype py_error = AttributeError | TypeError

record item_object =
  item_uid :: int
  item_nid :: nid

record skill_object =
  skill_nid :: nid
  negative :: bool

text \<open>
  A unit; the coordinate type is a parameter because the query engine works on whole tiles
  while the free-roam state keeps a fractional position in the same attribute.
\<close>

record 'c unit_object =
  unit_nid :: nid
  team :: string
  tags :: "string list"
  position :: "('c \<times> 'c) option"
  items :: "item_object list"
  skills :: "skill_object list"

text \<open>
  A region. \<^verbatim>\<open>Region.contains\<close> is a method of a class outside the modelled files: it is
  a field, applied to the position it is given (\<open>None\<close> for a unit that has none) and
  returning a truth value or raising.
\<close>

record region =
  region_nid :: nid
  sub_nid :: string
  only_once :: bool
  interrupt_move :: bool
  contains :: "pos option \<Rightarrow> py_error + bool"

datatype pyval =
    PNone
  | PStr string
  | PInt int
  | PTuple int int
  | PUnit "int unit_object"
  | PItem item_object
  | PSkill skill_object
  | PRegion region

text \<open>Truth value of an optional string argument: \<open>None\<close> and the empty string are false.\<close>

definition truthy :: "string option \<Rightarrow> bool" where
  "truthy s = (case s of None \<Rightarrow> False | Some t \<Rightarrow> t \<noteq> [])"

text \<open>\<^verbatim>\<open>tag and tag not in unit.tags\<close>.\<close>

definition tag_missing :: "string option \<Rightarrow> string list \<Rightarrow> bool" where
  "tag_missing tag unit_tags =
     (case tag of None \<Rightarrow> False | Some t \<Rightarrow> t \<noteq> [] \<and> t \<notin> set unit_tags)"

definition pos_val :: "pos option \<Rightarrow> pyval" where
  "pos_val p = (case p of None \<Rightarrow> PNone | Some (x, y) \<Rightarrow> PTuple x y)"

section \<open>app/engine/query\_engine.py\<close>

text \<open>
  \<^verbatim>\<open>GameState\<close> and \<^verbatim>\<open>utils.calculate_distance\<close> are outside the modelled files. The
  query surface the engine consumes is a record of functions: every theorem below holds
  for whatever these return. \<^verbatim>\<open>get_unit\<close> and \<^verbatim>\<open>get_region\<close> look a value up in a
  registry: they return the object registered under it or \<open>None\<close>, and do not raise.
  \<open>tile_distance\<close> is the metric \<^verbatim>\<open>calculate_distance\<close> computes on two tiles.
\<close>

record game_state =
  get_unit :: "pyval \<Rightarrow> int unit_object option"
  get_region :: "pyval \<Rightarrow> region option"
  get_all_units :: "int unit_object list"
  get_all_units_in_party :: "string \<Rightarrow> int unit_object list"
  get_player_units :: "int unit_object list"
  get_convoy_inventory :: "item_object list"
  get_party_convoy :: "string \<Rightarrow> item_object list"
  check_dead :: "int unit_object option \<Rightarrow> py_error + bool"
  tile_distance :: "pos \<Rightarrow> pos \<Rightarrow> int"

text \<open>
  \<^verbatim>\<open>_resolve_to_nid\<close>: \<^verbatim>\<open>obj.uid\<close>, else \<^verbatim>\<open>obj.nid\<close>, else the value itself.
\<close>

fun resolve_to_nid :: "pyval \<Rightarrow> pyval" where
  "resolve_to_nid (PItem it) = PInt (item_uid it)"
| "resolve_to_nid (PUnit u) = PStr (unit_nid u)"
| "resolve_to_nid (PSkill sk) = PStr (skill_nid sk)"
| "resolve_to_nid (PRegion r) = PStr (region_nid r)"
| "resolve_to_nid v = v"

definition resolve_to_unit :: "game_state \<Rightarrow> pyval \<Rightarrow> int unit_object option" where
  "resolve_to_unit g unit_or_nid = get_unit g (resolve_to_nid unit_or_nid)"

definition resolve_to_region :: "game_state \<Rightarrow> pyval \<Rightarrow> region option" where
  "resolve_to_region g region_or_nid = get_region g (resolve_to_nid region_or_nid)"

text \<open>
  \<^verbatim>\<open>_resolve_pos\<close>. The first statement of the \<^verbatim>\<open>try\<close> block rebinds the local
  \<^verbatim>\<open>has_pos_or_is_pos\<close> to what \<^verbatim>\<open>game.get_unit\<close> returned. For a unit the result is its
  position (possibly \<open>None\<close>). When no unit is registered under the value, \<^verbatim>\<open>get_unit\<close> returns
  \<open>None\<close> without raising, reading \<^verbatim>\<open>.position\<close> of it raises, and the \<^verbatim>\<open>except\<close> branch
  returns the local as it stands then, which is \<open>None\<close> and no longer the argument: a
  tile given as position is lost.
\<close>

definition resolve_pos :: "game_state \<Rightarrow> pyval \<Rightarrow> pyval" where
  "resolve_pos g has_pos_or_is_pos =
     (case resolve_to_unit g has_pos_or_is_pos of
        None \<Rightarrow> PNone
      | Some u \<Rightarrow> pos_val (position u))"

text \<open>\<^verbatim>\<open>it.uid == item or it.nid == item\<close>, on a resolved reference.\<close>

definition item_matches :: "pyval \<Rightarrow> item_object \<Rightarrow> bool" where
  "item_matches item it = (PInt (item_uid it) = item \<or> PStr (item_nid it) = item)"

definition first_or_none :: "'a list \<Rightarrow> 'a option" where
  "first_or_none found = (case found of [] \<Rightarrow> None | x # _ \<Rightarrow> Some x)"

definition get_item :: "game_state \<Rightarrow> pyval \<Rightarrow> pyval \<Rightarrow> py_error + item_object option" where
  "get_item g unit item =
     (let item' = resolve_to_nid item in
      if unit = PStr ''convoy''
      then Inr (first_or_none (filter (item_matches item') (get_convoy_inventory g)))
      else (case resolve_to_unit g unit of
              None \<Rightarrow> Inl AttributeError
            | Some u \<Rightarrow> Inr (first_or_none (filter (item_matches item') (items u)))))"

text \<open>The loop of \<^verbatim>\<open>has_item\<close> over \<^verbatim>\<open>all_units\<close>, with its three \<^verbatim>\<open>continue\<close> filters.\<close>

fun has_item_loop ::
  "game_state \<Rightarrow> pyval \<Rightarrow> string option \<Rightarrow> string option \<Rightarrow> string option
     \<Rightarrow> int unit_object list \<Rightarrow> py_error + bool" where
  "has_item_loop g item nid team_arg tag [] = Inr False"
| "has_item_loop g item nid team_arg tag (unit # rest) =
     (if truthy nid \<and> nid \<noteq> Some (unit_nid unit) then has_item_loop g item nid team_arg tag rest
      else if truthy team_arg \<and> team_arg \<noteq> Some (team unit) then has_item_loop g item nid team_arg tag rest
      else if tag_missing tag (tags unit) then has_item_loop g item nid team_arg tag rest
      else (case get_item g (PUnit unit) item of
              Inl e \<Rightarrow> Inl e
            | Inr (Some found) \<Rightarrow> Inr True
            | Inr None \<Rightarrow> has_item_loop g item nid team_arg tag rest))"

definition has_item ::
  "game_state \<Rightarrow> pyval \<Rightarrow> string option \<Rightarrow> string option \<Rightarrow> string option
     \<Rightarrow> string option \<Rightarrow> py_error + bool" where
  "has_item g item nid team_arg tag party =
     (let all_units = (case party of
                         None \<Rightarrow> get_all_units g
                       | Some p \<Rightarrow> if p = [] then get_all_units g
                                  else get_all_units_in_party g p);
          item' = resolve_to_nid item;
          convoy = (if \<not> truthy nid \<or> nid = Some ''convoy''
                    then (if nid = Some ''convoy'' \<or> team_arg = Some ''player''
                          then Some (get_convoy_inventory g)
                          else (case party of
                                  None \<Rightarrow> None
                                | Some p \<Rightarrow> if p = [] then None
                                           else Some (get_party_convoy g p)))
                    else None)
      in if (case convoy of None \<Rightarrow> False
             | Some c \<Rightarrow> c \<noteq> [] \<and> (\<exists>citem \<in> set c. item_matches item' citem))
         then Inr True
         else has_item_loop g item' nid team_arg tag all_units)"



text \<open>
  \<^verbatim>\<open>utils.calculate_distance(unit.position, position)\<close>: the metric on two tiles; a
  position that is \<open>None\<close> or is no tuple cannot be indexed, which is a \<^verbatim>\<open>TypeError\<close>.
\<close>

definition calculate_distance :: "game_state \<Rightarrow> pyval \<Rightarrow> pyval \<Rightarrow> py_error + int" where
  "calculate_distance g p q =
     (case (p, q) of
        (PTuple x1 y1, PTuple x2 y2) \<Rightarrow> Inr (tile_distance g (x1, y1) (x2, y2))
      | _ \<Rightarrow> Inl TypeError)"

text \<open>The list comprehension \<^verbatim>\<open>[(unit, calculate_distance(unit.position, position)) ...]\<close>.\<close>

fun distance_pairs ::
  "game_state \<Rightarrow> pyval \<Rightarrow> int unit_object list \<Rightarrow> py_error + (int unit_object \<times> int) list" where
  "distance_pairs g p [] = Inr []"
| "distance_pairs g p (unit # rest) =
     (case calculate_distance g (pos_val (position unit)) p of
        Inl e \<Rightarrow> Inl e
      | Inr d \<Rightarrow> (case distance_pairs g p rest of
                    Inl e \<Rightarrow> Inl e
                  | Inr ps \<Rightarrow> Inr ((unit, d) # ps)))"

text \<open>The slice \<^verbatim>\<open>xs[:num]\<close>: a negative \<open>num\<close> counts from the end of the list.\<close>

definition slice_to :: "'a list \<Rightarrow> int \<Rightarrow> 'a list" where
  "slice_to xs num =
     (if 0 \<le> num then take (nat num) xs else take (nat (int (length xs) + num)) xs)"

text \<open>
  \<^verbatim>\<open>sorted(..., key=lambda pair: pair[1])\<close> is a stable sort; so is \<^const>\<open>sort_key\<close>, and two
  stable sorts by the same key agree.
\<close>

definition get_closest_allies ::
  "game_state \<Rightarrow> pyval \<Rightarrow> int \<Rightarrow> py_error + (int unit_object \<times> int) list" where
  "get_closest_allies g position_arg num =
     (case distance_pairs g (resolve_pos g position_arg) (get_player_units g) of
        Inl e \<Rightarrow> Inl e
      | Inr ps \<Rightarrow> Inr (slice_to (sort_key snd ps) num))"

definition get_allies_within_distance ::
  "game_state \<Rightarrow> pyval \<Rightarrow> int \<Rightarrow> py_error + (int unit_object \<times> int) list" where
  "get_allies_within_distance g position_arg dist_arg =
     (case distance_pairs g (resolve_pos g position_arg) (get_player_units g) of
        Inl e \<Rightarrow> Inl e
      | Inr ps \<Rightarrow> Inr (filter (\<lambda>pair. snd pair \<le> dist_arg) ps))"

text \<open>
  The loop of \<^verbatim>\<open>get_units_in_area\<close>; \<^verbatim>\<open>ux, uy = unit.position\<close> raises \<^verbatim>\<open>TypeError\<close> for a
  unit whose position is \<open>None\<close>.
\<close>

fun units_in_bounds ::
  "int \<Rightarrow> int \<Rightarrow> int \<Rightarrow> int \<Rightarrow> int unit_object list \<Rightarrow> py_error + int unit_object list" where
  "units_in_bounds x1 y1 x2 y2 [] = Inr []"
| "units_in_bounds x1 y1 x2 y2 (unit # rest) =
     (case position unit of
        None \<Rightarrow> Inl TypeError
      | Some (ux, uy) \<Rightarrow>
          (case units_in_bounds x1 y1 x2 y2 rest of
             Inl e \<Rightarrow> Inl e
           | Inr target_units \<Rightarrow>
               Inr (if x1 \<le> ux \<and> ux \<le> x2 \<and> y1 \<le> uy \<and> uy \<le> y2
                    then unit # target_units else target_units)))"

definition get_units_in_area :: "game_state \<Rightarrow> pos \<Rightarrow> pos \<Rightarrow> py_error + int unit_object list" where
  "get_units_in_area g position_corner_1 position_corner_2 =
     (let (x1, y1) = position_corner_1;
          (x2, y2) = position_corner_2;
          (x1', x2') = (if x1 > x2 then (x2, x1) else (x1, x2));
          (y1', y2') = (if y1 > y2 then (y2, y1) else (y1, y2))
      in units_in_bounds x1' y1' x2' y2' (get_all_units g))"


text \<open>
  The loop of \<^verbatim>\<open>get_units_in_region\<close>; \<^verbatim>\<open>region.contains\<close> is reached only for a
  unit that passes the three filters, and raises \<^verbatim>\<open>AttributeError\<close> there when the region
  did not resolve.
\<close>

fun units_in_region_loop ::
  "region option \<Rightarrow> string option \<Rightarrow> string option \<Rightarrow> string option
     \<Rightarrow> int unit_object list \<Rightarrow> py_error + int unit_object list" where
  "units_in_region_loop r nid team_arg tag [] = Inr []"
| "units_in_region_loop r nid team_arg tag (unit # rest) =
     (if (truthy nid \<and> nid \<noteq> Some (unit_nid unit))
         \<or> (truthy team_arg \<and> team_arg \<noteq> Some (team unit))
         \<or> tag_missing tag (tags unit)
      then units_in_region_loop r nid team_arg tag rest
      else (case r of
              None \<Rightarrow> Inl AttributeError
            | Some reg \<Rightarrow>
                (case contains reg (position unit) of
                   Inl e \<Rightarrow> Inl e
                 | Inr inside \<Rightarrow>
                     (case units_in_region_loop r nid team_arg tag rest of
                        Inl e \<Rightarrow> Inl e
                      | Inr all_units \<Rightarrow> Inr (if inside then unit # all_units else all_units)))))"

definition get_units_in_region ::
  "game_state \<Rightarrow> pyval \<Rightarrow> string option \<Rightarrow> string option \<Rightarrow> string option
     \<Rightarrow> py_error + int unit_object list" where
  "get_units_in_region g region_arg nid team_arg tag =
     units_in_region_loop (resolve_to_region g region_arg) nid team_arg tag (get_all_units g)"

definition any_unit_in_region ::
  "game_state \<Rightarrow> pyval \<Rightarrow> string option \<Rightarrow> string option \<Rightarrow> string option
     \<Rightarrow> py_error + bool" where
  "any_unit_in_region g region_arg nid team_arg tag =
     (case get_units_in_region g region_arg nid team_arg tag of
        Inl e \<Rightarrow> Inl e
      | Inr us \<Rightarrow> Inr (us \<noteq> []))"

definition is_dead :: "game_state \<Rightarrow> pyval \<Rightarrow> py_error + bool" where
  "is_dead g unit = check_dead g (resolve_to_unit g unit)"

subsection \<open>Predicates the theorems on the query engine are stated with\<close>

text \<open>
  A unit lies within the rectangle spanned by two corners, bounds included, whichever
  order the corners are given in.
\<close>

definition within_rectangle :: "pos \<Rightarrow> pos \<Rightarrow> int unit_object \<Rightarrow> bool" where
  "within_rectangle c1 c2 u =
     (case position u of
        None \<Rightarrow> False
      | Some (ux, uy) \<Rightarrow>
          min (fst c1) (fst c2) \<le> ux \<and> ux \<le> max (fst c1) (fst c2)
          \<and> min (snd c1) (snd c2) \<le> uy \<and> uy \<le> max (snd c1) (snd c2))"

text \<open>The pair \<open>(unit, distance)\<close> of a unit that has a position, for the tile \<open>q\<close>.\<close>

definition is_distance_pair ::
  "game_state \<Rightarrow> pos \<Rightarrow> int unit_object \<Rightarrow> int unit_object \<times> int \<Rightarrow> bool" where
  "is_distance_pair g q u pr =
     (fst pr = u \<and> (case position u of None \<Rightarrow> False | Some p \<Rightarrow> snd pr = tile_distance g p q))"

subsection \<open>A small game state\<close>

definition iron_sword :: item_object where
  "iron_sword = \<lparr>item_uid = 101, item_nid = ''Iron Sword''\<rparr>"

definition vulnerary :: item_object where
  "vulnerary = \<lparr>item_uid = 102, item_nid = ''Vulnerary''\<rparr>"

definition eirika :: "int unit_object" where
  "eirika = \<lparr>unit_nid = ''Eirika'', team = ''player'', tags = [''Lord''],
              position = Some (1, 1), items = [iron_sword], skills = []\<rparr>"

definition seth :: "int unit_object" where
  "seth = \<lparr>unit_nid = ''Seth'', team = ''player'', tags = [],
            position = Some (2, 0), items = [], skills = []\<rparr>"

definition tana :: "int unit_object" where
  "tana = \<lparr>unit_nid = ''Tana'', team = ''player'', tags = [],
            position = Some (0, 1), items = [], skills = []\<rparr>"

definition bandit :: "int unit_object" where
  "bandit = \<lparr>unit_nid = ''Bandit'', team = ''enemy'', tags = [],
              position = Some (7, 7), items = [], skills = []\<rparr>"

definition demo_units :: "int unit_object list" where
  "demo_units = [eirika, seth, tana, bandit]"

definition demo_game :: game_state where
  "demo_game =
     \<lparr>get_unit = (\<lambda>v. find (\<lambda>u. PStr (unit_nid u) = v) demo_units),
      get_region = (\<lambda>v. None),
      get_all_units = demo_units,
      get_all_units_in_party = (\<lambda>p. []),
      get_player_units = [eirika, seth, tana],
      get_convoy_inventory = [vulnerary],
      get_party_convoy = (\<lambda>p. []),
      check_dead = (\<lambda>u. Inr False),
      tile_distance = (\<lambda>p q. \<bar>fst p - fst q\<bar> + \<bar>snd p - snd q\<bar>)\<rparr>"



section \<open>app/data/database/items.py\<close>

text \<open>
  A component, with the attributes \<^verbatim>\<open>ItemPrefab.restore\<close> reads: \<^verbatim>\<open>nid\<close>, \<^verbatim>\<open>value\<close> and
  \<^verbatim>\<open>paired_with\<close>. The type of saved values is a parameter.
\<close>

record 'v component =
  comp_nid :: nid
  comp_value :: 'v
  paired_with :: "nid list"

text \<open>
  \<^verbatim>\<open>app.engine.item_component_access\<close> (\<^verbatim>\<open>ICA\<close>) is outside the modelled files; its two
  functions are parameters. \<^verbatim>\<open>restore_component\<close> returns \<open>None\<close> for a saved component
  it cannot restore, \<^verbatim>\<open>get_component\<close> returns \<open>None\<close> for a nid it does not know.
\<close>

record 'v item_component_access =
  restore_component :: "nid \<times> 'v \<Rightarrow> 'v component option"
  get_component :: "nid \<Rightarrow> 'v component option"

text \<open>The saved dictionary \<^verbatim>\<open>dat\<close>, with the six keys \<^verbatim>\<open>restore\<close> reads.\<close>

record 'v item_dat =
  dat_nid :: nid
  dat_name :: string
  dat_desc :: string
  dat_icon_nid :: "nid option"
  dat_icon_index :: "int \<times> int"
  dat_components :: "(nid \<times> 'v) list"

text \<open>
  The container \<^verbatim>\<open>Data\<close> (\<^verbatim>\<open>app.utilities.data\<close>) is outside the modelled files. It keeps
  its values in a list, in the order they were appended, and indexes them by their
  \<^verbatim>\<open>nid\<close>. \<^verbatim>\<open>append(val)\<close> reads \<^verbatim>\<open>val.nid\<close>, which raises \<^verbatim>\<open>AttributeError\<close> when
  \<^verbatim>\<open>val\<close> is \<open>None\<close>, and leaves the container as it is when it already holds a value of
  that nid.
\<close>

type_synonym 'v data = "'v component list"

definition data_append :: "'v data \<Rightarrow> 'v component option \<Rightarrow> py_error + 'v data" where
  "data_append d val =
     (case val of
        None \<Rightarrow> Inl AttributeError
      | Some c \<Rightarrow> Inr (if comp_nid c \<in> set (map comp_nid d) then d else d @ [c]))"

text \<open>
  An \<^verbatim>\<open>ItemPrefab\<close> is its instance dictionary \<^verbatim>\<open>__dict__\<close>, from attribute names to
  values. An attribute that is not in the dictionary reads as \<open>None\<close>
  (\<^verbatim>\<open>__getattr__\<close>).
\<close>

datatype 'v attr =
    AStr string
  | ANone
  | ATuple int int
  | AData "'v data"
  | AComponent "'v component"

type_synonym 'v item_prefab = "string \<Rightarrow> 'v attr option"

text \<open>
  \<^verbatim>\<open>ItemPrefab.__init__\<close>: the six attributes, then every component once more under its own
  nid, \<^verbatim>\<open>self.__dict__[component_key] = component_value\<close>. A component whose nid is the
  name of one of the six attributes replaces that attribute. \<^verbatim>\<open>components or Data()\<close> is
  an empty container either way.
\<close>

definition init_prefab ::
  "nid \<Rightarrow> string \<Rightarrow> string \<Rightarrow> nid option \<Rightarrow> int \<times> int \<Rightarrow> 'v data \<Rightarrow> 'v item_prefab" where
  "init_prefab nid_arg name desc icon_nid icon_index components =
     fold (\<lambda>component dict. dict(comp_nid component \<mapsto> AComponent component)) components
       [''nid'' \<mapsto> AStr nid_arg,
        ''name'' \<mapsto> AStr name,
        ''desc'' \<mapsto> AStr desc,
        ''icon_nid'' \<mapsto> (case icon_nid of None \<Rightarrow> ANone | Some n \<Rightarrow> AStr n),
        ''icon_index'' \<mapsto> ATuple (fst icon_index) (snd icon_index),
        ''components'' \<mapsto> AData components]"

text \<open>
  \<^verbatim>\<open>components = [ICA.restore_component(val) for val in dat['components']]\<close> followed by
  \<^verbatim>\<open>components = [c for c in components if c]\<close>: a restored component is an object and
  passes the test, \<open>None\<close> does not.
\<close>

definition restored_components ::
  "'v item_component_access \<Rightarrow> (nid \<times> 'v) list \<Rightarrow> 'v component list" where
  "restored_components ica saved =
     concat (map (\<lambda>val. case restore_component ica val of None \<Rightarrow> [] | Some c \<Rightarrow> [c]) saved)"

text \<open>
  The inner loop over \<^verbatim>\<open>component.paired_with\<close>, on the container \<^verbatim>\<open>all_components\<close> as
  it stands: a paired nid that no restored component has is default-initialised from its
  component class and appended. \<^verbatim>\<open>component_class.value\<close> raises \<^verbatim>\<open>AttributeError\<close> when
  \<^verbatim>\<open>get_component\<close> returned \<open>None\<close>; the result of \<^verbatim>\<open>restore_component\<close> is appended
  without a test, so \<^verbatim>\<open>append\<close> raises when it is \<open>None\<close>.
\<close>

fun paired_loop ::
  "'v item_component_access \<Rightarrow> 'v component list \<Rightarrow> 'v data \<Rightarrow> nid list
     \<Rightarrow> py_error + 'v data" where
  "paired_loop ica comps all_components [] = Inr all_components"
| "paired_loop ica comps all_components (paired_nid # rest) =
     (if \<exists>c \<in> set comps. paired_nid = comp_nid c
      then paired_loop ica comps all_components rest
      else (case get_component ica paired_nid of
              None \<Rightarrow> Inl AttributeError
            | Some component_class \<Rightarrow>
                (let new_paired =
                       restore_component ica (paired_nid, comp_value component_class)
                 in case data_append all_components new_paired of
                      Inl e \<Rightarrow> Inl e
                    | Inr all_components' \<Rightarrow> paired_loop ica comps all_components' rest)))"

text \<open>The outer loop \<^verbatim>\<open>for component in components\<close>.\<close>

fun components_loop ::
  "'v item_component_access \<Rightarrow> 'v component list \<Rightarrow> 'v data \<Rightarrow> 'v component list
     \<Rightarrow> py_error + 'v data" where
  "components_loop ica comps all_components [] = Inr all_components"
| "components_loop ica comps all_components (component # rest) =
     (case data_append all_components (Some component) of
        Inl e \<Rightarrow> Inl e
      | Inr all_components' \<Rightarrow>
          (case paired_loop ica comps all_components' (paired_with component) of
             Inl e \<Rightarrow> Inl e
           | Inr all_components'' \<Rightarrow> components_loop ica comps all_components'' rest))"

definition restore :: "'v item_component_access \<Rightarrow> 'v item_dat \<Rightarrow> py_error + 'v item_prefab" where
  "restore ica dat =
     (let components = restored_components ica (dat_components dat) in
      case components_loop ica components [] components of
        Inl e \<Rightarrow> Inl e
      | Inr all_components \<Rightarrow>
          Inr (init_prefab (dat_nid dat) (dat_name dat) (dat_desc dat) (dat_icon_nid dat)
                 (dat_icon_index dat) all_components))"

subsection \<open>Predicates and example data for the theorems on \<^verbatim>\<open>restore\<close>\<close>

text \<open>A saved component that \<^verbatim>\<open>restore_component\<close> restores.\<close>

definition restores :: "'v item_component_access \<Rightarrow> nid \<times> 'v \<Rightarrow> bool" where
  "restores ica val = (restore_component ica val \<noteq> None)"

text \<open>
  The default-initialised component of the class registered under a nid: \<open>None\<close> when the
  class is unknown or its default value does not restore.
\<close>

definition synthesised :: "'v item_component_access \<Rightarrow> nid \<Rightarrow> 'v component option" where
  "synthesised ica n =
     (case get_component ica n of
        None \<Rightarrow> None
      | Some component_class \<Rightarrow> restore_component ica (n, comp_value component_class))"

text \<open>
  The paired nids \<^verbatim>\<open>restore\<close> has to synthesise a component for: those a restored
  component is paired with and no restored component has.
\<close>

definition missing_pairs :: "'v component list \<Rightarrow> nid list" where
  "missing_pairs comps =
     filter (\<lambda>n. n \<notin> set (map comp_nid comps)) (concat (map paired_with comps))"

text \<open>
  A component of a restored item is the restoration of a saved component or the
  default-initialised component of a missing pair.
\<close>

definition restored_from ::
  "'v item_component_access \<Rightarrow> (nid \<times> 'v) list \<Rightarrow> 'v component \<Rightarrow> bool" where
  "restored_from ica saved c =
     ((\<exists>val \<in> set saved. restore_component ica val = Some c)
      \<or> (\<exists>n \<in> set (missing_pairs (restored_components ica saved)). synthesised ica n = Some c))"

text \<open>
  A registry with three component classes; \<^verbatim>\<open>uses\<close> is paired with \<^verbatim>\<open>uses_options\<close>. Any
  other nid (a component class that no longer exists) fails to restore.
\<close>

definition demo_ica :: "nat item_component_access" where
  "demo_ica =
     \<lparr>restore_component = (\<lambda>(n, v).
          if n = ''weapon'' then Some \<lparr>comp_nid = ''weapon'', comp_value = v, paired_with = []\<rparr>
          else if n = ''uses'' then
            Some \<lparr>comp_nid = ''uses'', comp_value = v, paired_with = [''uses_options'']\<rparr>
          else if n = ''uses_options'' then
            Some \<lparr>comp_nid = ''uses_options'', comp_value = v, paired_with = []\<rparr>
          else None),
      get_component = (\<lambda>n.
          if n = ''uses_options'' then
            Some \<lparr>comp_nid = ''uses_options'', comp_value = 0, paired_with = []\<rparr>
          else None)\<rparr>"

text \<open>The same registry when the default value of \<^verbatim>\<open>uses_options\<close> does not restore.\<close>

definition stale_ica :: "nat item_component_access" where
  "stale_ica =
     demo_ica\<lparr>restore_component := (\<lambda>(n, v).
        if n = ''uses_options'' then None else restore_component demo_ica (n, v))\<rparr>"

definition demo_dat :: "(nid \<times> nat) list \<Rightarrow> nat item_dat" where
  "demo_dat saved =
     \<lparr>dat_nid = ''Iron Sword'', dat_name = ''Iron Sword'', dat_desc = ''A sword.'',
      dat_icon_nid = None, dat_icon_index = (0, 0), dat_components = saved\<rparr>"

section \<open>app/editor/event\_editor/event\_properties.py\<close>

text \<open>
  An \<^verbatim>\<open>EventCommand\<close>, with the attribute the editor reads from it, the required
  \<^verbatim>\<open>keywords\<close>, its \<^verbatim>\<open>nid\<close>, and the values the parser gave it (the \<open>values\<close> of a
  Command in the data model: keyword and argument, in order).
\<close>

record event_command =
  cmd_nid :: string
  cmd_keywords :: "string list"
  cmd_values :: "(string \<times> string) list"

text \<open>
  \<^verbatim>\<open>app.events.event_commands\<close> and \<^verbatim>\<open>app.events.event_validators\<close> are outside the
  modelled files. What \<^verbatim>\<open>validate_tokens\<close> calls is a record of functions, each returning
  a value or raising: \<^verbatim>\<open>parse_text_to_command(line, strict)\<close> gives the pair
  \<open>(command, error_loc)\<close>; \<^verbatim>\<open>parse(command)\<close> gives the parameters (a dictionary, in
  insertion order) and the flags; \<^verbatim>\<open>validate\<close> stands for
  \<^verbatim>\<open>event_validators.validate(validator, value, level, DB, RESOURCES)\<close>.
\<close>

record validation_env =
  parse_text_to_command :: "string \<Rightarrow> bool \<Rightarrow> py_error + (event_command option \<times> int option)"
  parse :: "event_command \<Rightarrow> py_error + ((string \<times> string) list \<times> string set)"
  get_validator_from_keyword :: "event_command \<Rightarrow> string \<Rightarrow> py_error + string"
  get_index_from_keyword :: "event_command \<Rightarrow> string \<Rightarrow> py_error + int"
  validate :: "string \<Rightarrow> string \<Rightarrow> py_error + string option"

text \<open>
  What \<^verbatim>\<open>validate_tokens\<close> returns: the string \<^verbatim>\<open>'all'\<close> or a list of token indices.
  \<^verbatim>\<open>match_line\<close> uses an index on the tokens of the line, of which token \<open>0\<close> is the
  command name (line 105) and token \<open>2\<close> the second argument of \<^verbatim>\<open>speak\<close> (line 108): the
  argument of index \<open>i\<close> is token \<open>i + 1\<close>.
\<close>

datatype broken = All | Args "int list"

text \<open>The loop \<^verbatim>\<open>for keyword, value in parameters.items()\<close>.\<close>

fun broken_args_loop ::
  "validation_env \<Rightarrow> event_command \<Rightarrow> (string \<times> string) list \<Rightarrow> py_error + int list" where
  "broken_args_loop env command [] = Inr []"
| "broken_args_loop env command ((keyword, val) # rest) =
     (case get_validator_from_keyword env command keyword of
        Inl e \<Rightarrow> Inl e
      | Inr validator \<Rightarrow>
          (case validate env validator val of
             Inl e \<Rightarrow> Inl e
           | Inr (Some text) \<Rightarrow> broken_args_loop env command rest
           | Inr None \<Rightarrow>
               (case get_index_from_keyword env command keyword of
                  Inl e \<Rightarrow> Inl e
                | Inr idx \<Rightarrow>
                    (case broken_args_loop env command rest of
                       Inl e \<Rightarrow> Inl e
                     | Inr broken_args \<Rightarrow> Inr ((idx + 1) # broken_args)))))"

text \<open>
  \<^verbatim>\<open>EventSyntaxRuleHighlighter.validate_tokens\<close>. Every exception is caught and turned
  into \<^verbatim>\<open>'all'\<close>; \<^verbatim>\<open>elif error_loc\<close> is false for \<open>None\<close> and for \<open>0\<close>.
\<close>

definition validate_tokens :: "validation_env \<Rightarrow> string \<Rightarrow> broken" where
  "validate_tokens env line =
     (case parse_text_to_command env line True of
        Inl e \<Rightarrow> All
      | Inr (Some command, error_loc) \<Rightarrow>
          (case parse env command of
             Inl e \<Rightarrow> All
           | Inr (parameters, flags) \<Rightarrow>
               if \<exists>keyword \<in> set (cmd_keywords command). keyword \<notin> fst ` set parameters
               then All
               else (case broken_args_loop env command parameters of
                       Inl e \<Rightarrow> All
                     | Inr broken_args \<Rightarrow> Args broken_args))
      | Inr (None, Some loc) \<Rightarrow> if loc \<noteq> 0 then Args [loc + 1] else Args [0]
      | Inr (None, None) \<Rightarrow> Args [0])"

subsection \<open>The parser's contract, and an example parser\<close>

text \<open>
  Modelled from the spec: the invariant of a parsed Command, ``every required keyword must
  be present in \<open>values\<close>, else parse fails'', for the strict parse of one line. The parser
  itself (\<^verbatim>\<open>event_commands.parse_text_to_command\<close>) is outside the modelled files.
\<close>

definition strict_parse_complete :: "validation_env \<Rightarrow> string \<Rightarrow> bool" where
  "strict_parse_complete env line =
     (case parse_text_to_command env line True of
        Inr (Some command, error_loc) \<Rightarrow>
          (case parse env command of
             Inr (parameters, flags) \<Rightarrow> set (cmd_keywords command) \<subseteq> fst ` set parameters
           | Inl e \<Rightarrow> True)
      | _ \<Rightarrow> True)"

text \<open>
  Modelled from the spec: the tokens of a line, split at every semicolon that is outside
  braces.
\<close>

fun split_tokens :: "nat \<Rightarrow> string \<Rightarrow> string \<Rightarrow> string list" where
  "split_tokens depth token [] = [token]"
| "split_tokens depth token (c # cs) =
     (if c = CHR '';'' \<and> depth = 0 then token # split_tokens 0 [] cs
      else if c = CHR ''{'' then split_tokens (depth + 1) (token @ [c]) cs
      else if c = CHR ''}'' then split_tokens (depth - 1) (token @ [c]) cs
      else split_tokens depth (token @ [c]) cs)"

text \<open>
  Modelled from the spec: \<open>parse_line\<close> of section 4.1, for a catalog of commands that
  have required keywords only, given as pairs of a name and its keywords, and for
  positional arguments. An unknown name gives \<open>(None, 0)\<close> in strict mode; a missing
  required keyword gives the index of the argument expected to hold it, which for
  positional arguments is the number of arguments supplied; surplus arguments are ignored.
\<close>

definition parse_line ::
  "(string \<times> string list) list \<Rightarrow> string \<Rightarrow> bool \<Rightarrow> event_command option \<times> int option" where
  "parse_line catalog line strict =
     (case split_tokens 0 [] line of
        [] \<Rightarrow> (None, if strict then Some 0 else None)
      | name # arguments \<Rightarrow>
          (case map_of catalog name of
             None \<Rightarrow> (None, if strict then Some 0 else None)
           | Some kws \<Rightarrow>
               if length arguments < length kws
               then (None, Some (int (length arguments)))
               else (Some \<lparr>cmd_nid = name, cmd_keywords = kws,
                           cmd_values = zip kws arguments\<rparr>, None)))"

text \<open>
  An example: the commands \<^verbatim>\<open>speak\<close>, with a speaker and a text, and \<^verbatim>\<open>wait\<close>, with a
  time. \<^verbatim>\<open>parse\<close> returns the values of the command, the index of a keyword is its
  position among the keywords, and the validators accept a speaker who is a known unit, a
  time made of digits, and any text.
\<close>

definition demo_catalog :: "(string \<times> string list) list" where
  "demo_catalog = [(''speak'', [''Speaker'', ''Text'']), (''wait'', [''Time''])]"

definition demo_validation :: validation_env where
  "demo_validation =
     \<lparr>parse_text_to_command = (\<lambda>line strict. Inr (parse_line demo_catalog line strict)),
      parse = (\<lambda>command. Inr (cmd_values command, {})),
      get_validator_from_keyword = (\<lambda>command keyword.
          Inr (if keyword = ''Speaker'' then ''Unit''
               else if keyword = ''Time'' then ''Time'' else ''String'')),
      get_index_from_keyword = (\<lambda>command keyword.
          Inr (int (length (takeWhile (\<lambda>k. k \<noteq> keyword) (cmd_keywords command))))),
      validate = (\<lambda>validator val.
          Inr (if validator = ''Unit'' then
                 (if val \<in> set [''Eirika'', ''Seth''] then Some val else None)
               else if validator = ''Time'' then
                 (if val \<noteq> [] \<and> (\<forall>c \<in> set val. c \<in> set ''0123456789'') then Some val
                  else None)
               else Some val))\<rparr>"

section \<open>app/engine/roam\_state.py\<close>

text \<open>
  The free-roam state works on the global \<^verbatim>\<open>game\<close>. The part of it the modelled methods
  read and write is a record: the unit objects (by nid; a reference to a unit is its nid,
  so two references to one unit see the same position), the board's occupancy
  (\<^verbatim>\<open>game.board.get_unit\<close>), the regions of the level, and the calls made to the rest of the
  engine, in order. A coordinate or a speed is the exact value of the Python number, a
  real; the arithmetic of floats is modelled below. Calls to the sprite, the sound, the
  camera, the cursor and the fog of war leave the modelled state alone and are left out.
\<close>

type_synonym rpos = "real \<times> real"

datatype effect =
    Arrive nid
  | Trigger string nid "rpos option" nid
  | RemoveRegion nid

record game =
  units :: "nid \<Rightarrow> real unit_object option"
  board :: "pos \<Rightarrow> nid option"
  level_regions :: "region list"
  effects :: "effect list"

text \<open>
  The inputs of a tick and the engine functions outside the modelled files, as parameters:
  the input manager, \<^verbatim>\<open>engine.get_time()\<close>, the game variable \<^verbatim>\<open>_roam_speed\<close>,
  \<^verbatim>\<open>game.board.bounds\<close>, \<^verbatim>\<open>game.movement.get_mcost\<close>, \<^verbatim>\<open>game.board.get_team\<close>,
  \<^verbatim>\<open>utils.compare_teams\<close>, \<^verbatim>\<open>target_system.get_nearest_open_tile\<close> (which may find no
  tile) and \<^verbatim>\<open>game.events.trigger\<close> (whether an event fired).
\<close>

record roam_env =
  is_pressed :: "string \<Rightarrow> bool"
  just_pressed :: "string \<Rightarrow> bool"
  get_time :: int
  roam_speed :: real
  bounds :: "int \<times> int \<times> int \<times> int"
  get_mcost :: "real unit_object \<Rightarrow> pos \<Rightarrow> int"
  get_team :: "game \<Rightarrow> pos \<Rightarrow> string option"
  compare_teams :: "string \<Rightarrow> string \<Rightarrow> bool"
  get_nearest_open_tile :: "game \<Rightarrow> nid \<Rightarrow> pos \<Rightarrow> pos option"
  events_trigger :: "game \<Rightarrow> string \<Rightarrow> nid \<Rightarrow> rpos option \<Rightarrow> nid \<Rightarrow> bool"

text \<open>
  The attributes of \<^verbatim>\<open>FreeRoamState\<close>; \<open>targets\<close> are the units of
  \<^verbatim>\<open>self.ai_handler.targets\<close>.
\<close>

record free_roam_state =
  roam_unit :: "nid option"
  last_move :: int
  speed :: real
  vspeed :: real
  hspeed :: real
  direction :: "int \<times> int"
  targets :: "nid list"

text \<open>Python's \<^verbatim>\<open>round\<close> (halves go to the even neighbour) and \<^verbatim>\<open>int\<close> (towards zero).\<close>

definition py_round :: "real \<Rightarrow> int" where
  "py_round x =
     (let f = \<lfloor>x\<rfloor>; r = x - of_int f in
      if r < 1 / 2 then f else if 1 / 2 < r then f + 1 else if even f then f else f + 1)"

definition py_int :: "real \<Rightarrow> int" where
  "py_int x = (if 0 \<le> x then \<lfloor>x\<rfloor> else \<lceil>x\<rceil>)"

text \<open>
  Floats. A Python float is a binary64 number. An arithmetic operation on floats returns
  the float nearest to the exact result, a tie going to the one with the even significand,
  and a literal denotes the float nearest to it: \<^verbatim>\<open>x + 0.4\<close> is \<open>fl (x + fl (4 / 10))\<close>.
  For \<open>x\<close> other than zero, \<open>float_exponent x\<close> is the \<open>e\<close> with
  \<open>2 ^ e \<le> \<bar>x\<bar> < 2 ^ (e + 1)\<close>; the floats of that range are the multiples of
  \<open>2 ^ (e - 52)\<close>, and below \<open>2 ^ - 1022\<close> the multiples of \<open>2 ^ - 1074\<close>. Infinities
  (a result of magnitude \<open>2 ^ 1024\<close> or more) and NaN are outside the model. Negation, the
  absolute value and comparisons are exact.
\<close>

definition pow2 :: "int \<Rightarrow> real" where
  "pow2 e = (if 0 \<le> e then 2 ^ nat e else 1 / 2 ^ nat (- e))"

definition float_exponent :: "real \<Rightarrow> int" where
  "float_exponent x =
     (if 1 \<le> \<bar>x\<bar> then int (floorlog 2 (nat \<lfloor>\<bar>x\<bar>\<rfloor>)) - 1
      else - int (floorlog 2 (nat (\<lceil>1 / \<bar>x\<bar>\<rceil> - 1))))"

definition fl :: "real \<Rightarrow> real" where
  "fl x =
     (if x = 0 then 0
      else (let ulp = pow2 (max (float_exponent x) (- 1022) - 52)
            in of_int (py_round (x / ulp)) * ulp))"

text \<open>The reals that are floats: the numbers a position or a speed of the program holds.\<close>

definition is_float :: "real \<Rightarrow> bool" where
  "is_float x = (fl x = x)"

definition tile_pos :: "pos \<Rightarrow> rpos" where
  "tile_pos t = (of_int (fst t), of_int (snd t))"

definition unit_position :: "game \<Rightarrow> nid \<Rightarrow> rpos option" where
  "unit_position g n = (case units g n of None \<Rightarrow> None | Some u \<Rightarrow> position u)"

definition set_position :: "game \<Rightarrow> nid \<Rightarrow> rpos option \<Rightarrow> game" where
  "set_position g n p =
     g\<lparr>units := (units g)(n := map_option (\<lambda>u. u\<lparr>position := p\<rparr>) (units g n))\<rparr>"

text \<open>
  Modelled from the spec: \<^verbatim>\<open>game.arrive\<close> is not in the modelled files; it ``returns the
  unit to normal board bookkeeping''. The call is recorded, and a unit that has a position
  occupies the tile of that position afterwards.
\<close>

definition arrive :: "game \<Rightarrow> nid \<Rightarrow> game" where
  "arrive g n =
     g\<lparr>board := (case unit_position g n of
                   None \<Rightarrow> board g
                 | Some p \<Rightarrow> (board g)((\<lfloor>fst p\<rfloor>, \<lfloor>snd p\<rfloor>) \<mapsto> n)),
       effects := effects g @ [Arrive n]\<rparr>"

text \<open>
  Modelled from the spec: \<^verbatim>\<open>action.RemoveRegion\<close> is not in the modelled files; the region
  leaves the level, and the action is recorded.
\<close>

definition remove_region :: "game \<Rightarrow> region \<Rightarrow> game" where
  "remove_region g r =
     g\<lparr>level_regions := filter (\<lambda>r'. region_nid r' \<noteq> region_nid r) (level_regions g),
       effects := effects g @ [RemoveRegion (region_nid r)]\<rparr>"

subsection \<open>\<^verbatim>\<open>no_bumps\<close> and \<^verbatim>\<open>can_move\<close>\<close>

definition no_bumps :: "roam_env \<Rightarrow> game \<Rightarrow> real unit_object \<Rightarrow> int \<Rightarrow> int \<Rightarrow> bool" where
  "no_bumps env g roam x y =
     (let new_pos = (x, y) in
      if board g new_pos \<noteq> None
      then (case get_team env g new_pos of
              None \<Rightarrow> True
            | Some other_team \<Rightarrow>
                if other_team = [] \<or> compare_teams env (team roam) other_team
                then True else False)
      else True)"


subsection \<open>\<^verbatim>\<open>take_input\<close>: direction, speed and movement\<close>






subsection \<open>\<^verbatim>\<open>rationalize\<close>\<close>

definition rationalize_unit :: "roam_env \<Rightarrow> game \<Rightarrow> nid \<Rightarrow> py_error option \<times> game" where
  "rationalize_unit env g unit =
     (case unit_position g unit of
        None \<Rightarrow> (Some TypeError, g)
      | Some (x, y) \<Rightarrow>
          (let new_pos = (py_int x, py_int y);
               current_occupant = board g new_pos;
               new_pos' = (if current_occupant \<noteq> None \<and> current_occupant \<noteq> Some unit
                           then get_nearest_open_tile env g unit new_pos
                           else Some new_pos)
           in (None, arrive (set_position g unit (map_option tile_pos new_pos')) unit)))"

text \<open>The loop \<^verbatim>\<open>for t in self.ai_handler.targets\<close>; it stops at the first exception.\<close>

fun rationalize_targets :: "roam_env \<Rightarrow> game \<Rightarrow> nid list \<Rightarrow> py_error option \<times> game" where
  "rationalize_targets env g [] = (None, g)"
| "rationalize_targets env g (t # ts) =
     (case rationalize_unit env g t of
        (Some e, g') \<Rightarrow> (Some e, g')
      | (None, g') \<Rightarrow> rationalize_targets env g' ts)"

definition rationalize ::
  "roam_env \<Rightarrow> free_roam_state \<Rightarrow> game \<Rightarrow> py_error option \<times> free_roam_state \<times> game" where
  "rationalize env s g =
     (case roam_unit s of
        None \<Rightarrow> (Some AttributeError, s, g)
      | Some n \<Rightarrow>
          (case unit_position g n of
             None \<Rightarrow> (Some TypeError, s, g)
           | Some (x, y) \<Rightarrow>
               (let new_pos = (py_round x, py_round y);
                    current_occupant = board g new_pos;
                    new_pos' = (if current_occupant \<noteq> None
                                then get_nearest_open_tile env g n new_pos
                                else Some new_pos);
                    g1 = arrive (set_position g n (map_option tile_pos new_pos')) n
                in (case rationalize_targets env g1 (targets s) of
                      (Some e, g2) \<Rightarrow> (Some e, s, g2)
                    | (None, g2) \<Rightarrow>
                        (None,
                         s\<lparr>speed := 0, vspeed := 0, hspeed := 0, roam_unit := None,
                           last_move := 0\<rparr>,
                         g2)))))"

subsection \<open>\<^verbatim>\<open>take_input\<close>: regions that interrupt the movement\<close>

text \<open>
  The body of the loop \<^verbatim>\<open>for region in game.level.regions\<close> (lines 145 to 154), in two
  steps. First, lines 146 to 149: when the board has a unit at \<^verbatim>\<open>rounded_position\<close>, the
  local \<^verbatim>\<open>rounded_position\<close> becomes what \<^verbatim>\<open>get_nearest_open_tile\<close> returns for that
  occupant (possibly \<open>None\<close>), and it is assigned to \<^verbatim>\<open>self.roam_unit.position\<close>. A board
  has no unit at \<open>None\<close>. \<^verbatim>\<open>self.roam_unit\<close> is \<open>None\<close> after \<^verbatim>\<open>rationalize\<close>, and
  assigning to its position then raises.
\<close>

definition relocate_occupied ::
  "roam_env \<Rightarrow> pos option \<Rightarrow> free_roam_state \<Rightarrow> game \<Rightarrow> py_error option \<times> pos option \<times> game" where
  "relocate_occupied env rounded_position s g =
     (case rounded_position of
        None \<Rightarrow> (None, rounded_position, g)
      | Some t \<Rightarrow>
          (case board g t of
             None \<Rightarrow> (None, rounded_position, g)
           | Some current_occupant \<Rightarrow>
               (let rounded_position' = get_nearest_open_tile env g current_occupant t in
                case roam_unit s of
                  None \<Rightarrow> (Some AttributeError, rounded_position', g)
                | Some n \<Rightarrow>
                    (None, rounded_position',
                     set_position g n (map_option tile_pos rounded_position')))))"

text \<open>
  Then lines 150 to 154: the trigger \<^verbatim>\<open>roaming_interrupt\<close> is fired for the roam unit at
  its position; when an event fired the unit is rationalized, and the region is removed when
  it is marked \<^verbatim>\<open>only_once\<close>. An exception of \<^verbatim>\<open>rationalize\<close> leaves the region in place.
\<close>

definition fire_interrupt ::
  "roam_env \<Rightarrow> region \<Rightarrow> free_roam_state \<Rightarrow> game \<Rightarrow> py_error option \<times> free_roam_state \<times> game" where
  "fire_interrupt env region s g =
     (case roam_unit s of
        None \<Rightarrow> (Some AttributeError, s, g)
      | Some n \<Rightarrow>
          (let did_trigger =
                 events_trigger env g ''roaming_interrupt'' n (unit_position g n)
                   (region_nid region);
               g2 = g\<lparr>effects := effects g @
                        [Trigger ''roaming_interrupt'' n (unit_position g n)
                           (region_nid region)]\<rparr>
           in if did_trigger
              then (case rationalize env s g2 of
                      (Some e, s3, g3) \<Rightarrow> (Some e, s3, g3)
                    | (None, s3, g3) \<Rightarrow>
                        (None, s3, if only_once region then remove_region g3 region else g3))
              else (None, s, g2)))"

definition interrupt_region ::
  "roam_env \<Rightarrow> region \<Rightarrow> pos option \<times> free_roam_state \<times> game
     \<Rightarrow> py_error option \<times> pos option \<times> free_roam_state \<times> game" where
  "interrupt_region env region st =
     (case st of (rounded_position, s, g) \<Rightarrow>
        (case contains region rounded_position of
           Inl e \<Rightarrow> (Some e, st)
         | Inr inside \<Rightarrow>
             if inside \<and> interrupt_move region
             then (case relocate_occupied env rounded_position s g of
                     (Some e, rounded_position', g1) \<Rightarrow> (Some e, rounded_position', s, g1)
                   | (None, rounded_position', g1) \<Rightarrow>
                       (case fire_interrupt env region s g1 of
                          (err, s', g') \<Rightarrow> (err, rounded_position', s', g')))
             else (None, st)))"



subsection \<open>Predicates the theorems on the free-roam state are stated with\<close>

text \<open>
  The tile \<^verbatim>\<open>can_move\<close> inspects for a direction, from the position \<open>p\<close>: the tile the
  unit would enter.
\<close>

definition check_tile :: "rpos \<Rightarrow> string \<Rightarrow> pos" where
  "check_tile p direc =
     (if direc = ''LEFT'' then (py_round (fl (fst p - fl (4 / 10))), py_round (snd p))
      else if direc = ''RIGHT'' then (py_round (fl (fst p + fl (4 / 10))), py_round (snd p))
      else if direc = ''UP'' then (py_round (fst p), py_round (fl (snd p - fl (4 / 10))))
      else (py_round (fst p), py_round (fl (snd p + fl (4 / 10)))))"










subsection \<open>An example map\<close>

text \<open>
  Eirika roams at \<open>(2.5, 3.3)\<close>, which rounds to the tile \<open>(2, 3)\<close>. An enemy stands on
  \<open>(2, 3)\<close>, an ally on \<open>(2, 4)\<close>, and \<open>(3, 3)\<close> is a wall (movement cost 99) with no unit
  on it. The nearest open tile is looked for below, right of, above and left of a tile, in
  that order.
\<close>

definition roamer :: "real unit_object" where
  "roamer = \<lparr>unit_nid = ''Eirika'', team = ''player'', tags = [],
              position = Some (25 / 10, 33 / 10), items = [], skills = []\<rparr>"

definition roam_demo_game :: game where
  "roam_demo_game =
     \<lparr>units = (\<lambda>n.
         if n = ''Eirika'' then Some roamer
         else if n = ''Seth'' then
           Some \<lparr>unit_nid = ''Seth'', team = ''player'', tags = [],
                 position = Some (2, 4), items = [], skills = []\<rparr>
         else if n = ''Bandit'' then
           Some \<lparr>unit_nid = ''Bandit'', team = ''enemy'', tags = [],
                 position = Some (2, 3), items = [], skills = []\<rparr>
         else None),
      board = (\<lambda>t. if t = (2, 4) then Some ''Seth''
                    else if t = (2, 3) then Some ''Bandit'' else None),
      level_regions = [],
      effects = []\<rparr>"

definition roam_demo_env :: "(string \<Rightarrow> bool) \<Rightarrow> roam_env" where
  "roam_demo_env keys =
     \<lparr>is_pressed = keys,
      just_pressed = (\<lambda>k. False),
      get_time = 1000,
      roam_speed = 1,
      bounds = (0, 0, 10, 10),
      get_mcost = (\<lambda>u t. if t = (3, 3) then 99 else 1),
      get_team = (\<lambda>g t. case board g t of
                           None \<Rightarrow> None
                         | Some n \<Rightarrow> map_option team (units g n)),
      compare_teams = (\<lambda>a b. a = b),
      get_nearest_open_tile = (\<lambda>g n t.
          find (\<lambda>q. board g q = None)
            [(fst t, snd t + 1), (fst t + 1, snd t), (fst t, snd t - 1), (fst t - 1, snd t)]),
      events_trigger = (\<lambda>g name n p r. True)\<rparr>"

definition roam_demo_state :: free_roam_state where
  "roam_demo_state =
     \<lparr>roam_unit = Some ''Eirika'', last_move = 0, speed = 5 / 100, vspeed = 0, hspeed = 0,
      direction = (0, 0), targets = []\<rparr>"







definition left_only :: "string \<Rightarrow> bool" where
  "left_only k = (k = ''LEFT'')"

text \<open>
  What the spec says of \<^verbatim>\<open>get_nearest_open_tile\<close>, which is outside the modelled files: a
  tile it returns is open, that is, the board has no unit there.
\<close>

definition only_open_tiles :: "roam_env \<Rightarrow> bool" where
  "only_open_tiles env =
     (\<forall>g n t q. get_nearest_open_tile env g n t = Some q \<longrightarrow> board g q = None)"

text \<open>
  The unit stands on the tile, the board has it there, and \<^verbatim>\<open>game.arrive\<close> was called
  for it.
\<close>

definition placed :: "game \<Rightarrow> nid \<Rightarrow> pos \<Rightarrow> bool" where
  "placed g n t =
     (unit_position g n = Some (tile_pos t) \<and> board g t = Some n \<and> Arrive n \<in> set (effects g))"

definition roam_demo_state_seth :: free_roam_state where
  "roam_demo_state_seth = roam_demo_state\<lparr>targets := [''Seth'']\<rparr>"

definition empty_board_game :: game where
  "empty_board_game = roam_demo_game\<lparr>board := (\<lambda>t. None)\<rparr>"

text \<open>A region on the tile \<open>(2, 3)\<close> that interrupts the movement, once.\<close>

definition demo_region :: region where
  "demo_region =
     \<lparr>region_nid = ''Gate'', sub_nid = ''GateEvent'', only_once = True, interrupt_move = True,
      contains = (\<lambda>p. case p of None \<Rightarrow> Inl TypeError | Some t \<Rightarrow> Inr (t = (2, 3)))\<rparr>"

definition region_demo_game :: game where
  "region_demo_game = roam_demo_game\<lparr>level_regions := [demo_region]\<rparr>"

text \<open>The same engine with no event to fire.\<close>

definition quiet_env :: roam_env where
  "quiet_env = (roam_demo_env left_only)\<lparr>events_trigger := (\<lambda>g name n p r. False)\<rparr>"

text \<open>The game after the region has interrupted Eirika's movement.\<close>

definition interrupted_game :: game where
  "interrupted_game =
     remove_region
       (arrive ((set_position region_demo_game ''Eirika'' (Some (3, 3)))
          \<lparr>effects := [Trigger ''roaming_interrupt'' ''Eirika'' (Some (3, 3)) ''Gate'']\<rparr>)
          ''Eirika'')
       demo_region"

section \<open>Theorems on the query engine\<close>

lemmas demo_defs =
  demo_game_def demo_units_def eirika_def seth_def tana_def bandit_def iron_sword_def
  vulnerary_def

subsection \<open>Corner order of \<^verbatim>\<open>get_units_in_area\<close>\<close>

lemma units_in_bounds_filter:
  "\<forall>u \<in> set us. position u \<noteq> None \<Longrightarrow>
   units_in_bounds x1 y1 x2 y2 us =
     Inr (filter (\<lambda>u. case position u of None \<Rightarrow> False
                    | Some (ux, uy) \<Rightarrow> x1 \<le> ux \<and> ux \<le> x2 \<and> y1 \<le> uy \<and> uy \<le> y2) us)"
  by (induction us) (auto split: option.splits)


lemma get_units_in_area_swap: "get_units_in_area g p1 p2 = get_units_in_area g p2 p1"
  by (cases p1; cases p2) (auto simp: get_units_in_area_def)

lemma get_units_in_area_filter:
  assumes "\<forall>u \<in> set (get_all_units g). position u \<noteq> None"
  shows "get_units_in_area g p1 p2 = Inr (filter (within_rectangle p1 p2) (get_all_units g))"
proof -
  obtain a b c d where p: "p1 = (a, b)" "p2 = (c, d)" by (cases p1; cases p2) auto
  show ?thesis
    using assms unfolding p get_units_in_area_def
    by (auto simp: units_in_bounds_filter within_rectangle_def min_def max_def
        intro!: filter_cong split: option.splits)
qed

text \<open>
  Claim C7. For every pair of corners \<open>p1\<close>, \<open>p2\<close>, \<^verbatim>\<open>get_units_in_area(p1, p2)\<close> and
  \<^verbatim>\<open>get_units_in_area(p2, p1)\<close> are the same result (the same list of units in the same
  order, or the same exception), and when every unit of \<^verbatim>\<open>get_all_units()\<close> has a position
  the result is the list of the units whose position lies within the inclusive bounds of
  the rectangle spanned by the two corners, in catalog order.
\<close>

theorem get_units_in_area_corner_order:
  "get_units_in_area g p1 p2 = get_units_in_area g p2 p1
   \<and> ((\<forall>u \<in> set (get_all_units g). position u \<noteq> None) \<longrightarrow>
        get_units_in_area g p1 p2 = Inr (filter (within_rectangle p1 p2) (get_all_units g))
      \<and> get_units_in_area g p2 p1 = Inr (filter (within_rectangle p1 p2) (get_all_units g)))"
  using get_units_in_area_swap[of g p1 p2] get_units_in_area_filter[of g p1 p2] by simp

theorem get_units_in_area_corner_order_witness:
  "get_units_in_area demo_game (0, 0) (5, 5) = Inr [eirika, seth, tana]
   \<and> get_units_in_area demo_game (5, 5) (0, 0) = Inr [eirika, seth, tana]"
  using get_units_in_area_corner_order[of demo_game "(0, 0)" "(5, 5)"]
  by (simp add: demo_defs within_rectangle_def)

subsection \<open>\<^verbatim>\<open>has_item\<close> for the player team\<close>

lemma resolve_to_nid_idem: "resolve_to_nid (resolve_to_nid v) = resolve_to_nid v"
  by (cases v) auto

lemma get_item_of_unit:
  "get_unit g (PStr (unit_nid u)) = Some u \<Longrightarrow>
   get_item g (PUnit u) item =
     Inr (first_or_none (filter (item_matches (resolve_to_nid item)) (items u)))"
  by (simp add: get_item_def resolve_to_unit_def)

lemma has_item_loop_player:
  assumes "\<forall>u \<in> set us. team u = ''player'' \<longrightarrow> get_unit g (PStr (unit_nid u)) = Some u"
  shows "has_item_loop g item None (Some ''player'') None us =
     Inr (\<exists>u \<in> set us. team u = ''player''
            \<and> (\<exists>it \<in> set (items u). item_matches (resolve_to_nid item) it))"
  using assms
proof (induction us)
  case Nil
  then show ?case by simp
next
  case (Cons u us)
  show ?case
  proof (cases "team u = ''player''")
    case False
    with Cons show ?thesis by (auto simp: truthy_def tag_missing_def)
  next
    case True
    with Cons.prems have r: "get_unit g (PStr (unit_nid u)) = Some u" by simp
    show ?thesis
    proof (cases "filter (item_matches (resolve_to_nid item)) (items u)")
      case Nil
      then have "\<not> (\<exists>it \<in> set (items u). item_matches (resolve_to_nid item) it)"
        by (simp add: filter_empty_conv)
      with Nil True r Cons show ?thesis
        by (simp add: truthy_def tag_missing_def get_item_of_unit first_or_none_def)
    next
      case (Cons it its)
      then have "it \<in> set (filter (item_matches (resolve_to_nid item)) (items u))" by simp
      then have "\<exists>it \<in> set (items u). item_matches (resolve_to_nid item) it" by auto
      with Cons True r show ?thesis
        by (auto simp add: truthy_def tag_missing_def get_item_of_unit first_or_none_def)
    qed
  qed
qed

text \<open>
  Claim C5. \<^verbatim>\<open>has_item(item, team='player')\<close> returns \<open>True\<close> if and only if some
  player-team unit's inventory, or the player convoy, contains an item whose \<^verbatim>\<open>nid\<close> or
  \<^verbatim>\<open>uid\<close> equals the (resolved) item reference. The loop looks every player unit up again
  through \<^verbatim>\<open>game.get_unit(unit.nid)\<close>; the hypothesis is that the registry returns that
  unit.
\<close>

theorem has_item_player_iff:
  assumes "\<forall>u \<in> set (get_all_units g).
             team u = ''player'' \<longrightarrow> get_unit g (PStr (unit_nid u)) = Some u"
  shows "has_item g item None (Some ''player'') None None =
     Inr ((\<exists>u \<in> set (get_all_units g). team u = ''player''
             \<and> (\<exists>it \<in> set (items u). item_matches (resolve_to_nid item) it))
          \<or> (\<exists>it \<in> set (get_convoy_inventory g). item_matches (resolve_to_nid item) it))"
  using has_item_loop_player[OF assms, of "resolve_to_nid item"]
  by (auto simp: has_item_def truthy_def resolve_to_nid_idem Let_def)

theorem has_item_player_iff_witness:
  "has_item demo_game (PStr ''Iron Sword'') None (Some ''player'') None None = Inr True
   \<and> has_item demo_game (PInt 102) None (Some ''player'') None None = Inr True
   \<and> has_item demo_game (PStr ''Elixir'') None (Some ''player'') None None = Inr False"
  using has_item_player_iff[of demo_game "PStr ''Iron Sword''"]
    has_item_player_iff[of demo_game "PInt 102"]
    has_item_player_iff[of demo_game "PStr ''Elixir''"]
  by (simp add: demo_defs item_matches_def)

subsection \<open>\<^verbatim>\<open>get_closest_allies\<close>\<close>

lemma distance_pairs_positioned:
  "\<forall>u \<in> set us. position u \<noteq> None \<Longrightarrow>
   \<exists>ps. distance_pairs g (PTuple x y) us = Inr ps
      \<and> list_all2 (is_distance_pair g (x, y)) us ps"
proof (induction us)
  case Nil
  then show ?case by simp
next
  case (Cons u us)
  then obtain ps where ps: "distance_pairs g (PTuple x y) us = Inr ps"
    "list_all2 (is_distance_pair g (x, y)) us ps" by auto
  from Cons.prems obtain a b where p: "position u = Some (a, b)" by auto
  have "is_distance_pair g (x, y) u (u, tile_distance g (a, b) (x, y))"
    using p by (simp add: is_distance_pair_def)
  then show ?case
    using ps p by (simp add: calculate_distance_def pos_val_def)
qed

lemma slice_to_nonneg: "0 \<le> num \<Longrightarrow> slice_to xs num = take (nat num) xs"
  by (simp add: slice_to_def)

text \<open>
  Claim C6, for a count \<open>num \<ge> 0\<close> and a position given as a unit or a unit nid. When
  the reference resolves to a unit standing on a tile and every player unit has a position,
  \<^verbatim>\<open>get_closest_allies(position, num)\<close> returns the first \<open>num\<close> entries of the player
  units' \<open>(unit, distance)\<close> pairs sorted by distance to that tile: at most \<open>num\<close> pairs,
  in ascending order of distance, pairs of equal distance in the order of
  \<^verbatim>\<open>get_player_units()\<close> (the sort is stable), and one pair for every player unit when
  there are no more than \<open>num\<close> of them.
\<close>

theorem get_closest_allies_sorted_prefix:
  assumes "0 \<le> num"
    and "resolve_to_unit g position_arg = Some w" and "position w = Some (x, y)"
    and "\<forall>u \<in> set (get_player_units g). position u \<noteq> None"
  shows "\<exists>ps result.
           list_all2 (is_distance_pair g (x, y)) (get_player_units g) ps
         \<and> get_closest_allies g position_arg num = Inr result
         \<and> result = take (nat num) (sort_key snd ps)
         \<and> int (length result) \<le> num
         \<and> sorted (map snd result)
         \<and> sorted (map snd (sort_key snd ps))
         \<and> (\<forall>d. filter (\<lambda>pr. snd pr = d) (sort_key snd ps) = filter (\<lambda>pr. snd pr = d) ps)
         \<and> (int (length (get_player_units g)) \<le> num \<longrightarrow>
               length result = length (get_player_units g)
             \<and> mset (map fst result) = mset (get_player_units g))"
proof -
  have rp: "resolve_pos g position_arg = PTuple x y"
    using assms(2,3) by (simp add: resolve_pos_def pos_val_def)
  from distance_pairs_positioned[OF assms(4), of g x y] obtain ps where
    ps: "distance_pairs g (PTuple x y) (get_player_units g) = Inr ps"
    and all2: "list_all2 (is_distance_pair g (x, y)) (get_player_units g) ps" by blast
  define result where "result = take (nat num) (sort_key snd ps)"
  have len: "length ps = length (get_player_units g)"
    using all2 by (simp add: list_all2_lengthD)
  have fsts: "map fst ps = get_player_units g"
    using all2 by (induction rule: list_all2_induct) (auto simp: is_distance_pair_def)
  have r: "get_closest_allies g position_arg num = Inr result"
    using ps assms(1) rp by (simp add: get_closest_allies_def slice_to_nonneg result_def)
  have l: "int (length result) \<le> num" using assms(1) by (simp add: result_def)
  have s: "sorted (map snd result)"
    unfolding result_def take_map[symmetric] by (rule sorted_wrt_take) simp
  have st: "\<forall>d. filter (\<lambda>pr. snd pr = d) (sort_key snd ps) = filter (\<lambda>pr. snd pr = d) ps"
    by (simp add: sort_key_stable)
  have all: "int (length (get_player_units g)) \<le> num \<longrightarrow>
               length result = length (get_player_units g)
             \<and> mset (map fst result) = mset (get_player_units g)"
  proof
    assume "int (length (get_player_units g)) \<le> num"
    then have "result = sort_key snd ps" by (simp add: result_def len)
    then show "length result = length (get_player_units g)
             \<and> mset (map fst result) = mset (get_player_units g)"
      using fsts len by (metis length_sort mset_map mset_sort)
  qed
  show ?thesis using all2 r result_def l s st all by auto
qed

text \<open>
  On the example map Tana stands on \<open>(0, 1)\<close> and the bandit on \<open>(7, 7)\<close>; Eirika and
  Seth are equally far from the bandit and stay in catalog order.
\<close>

lemma demo_resolve_pos:
  "resolve_pos demo_game (PStr ''Tana'') = PTuple 0 1"
  "resolve_pos demo_game (PUnit bandit) = PTuple 7 7"
  by (simp_all add: resolve_pos_def resolve_to_unit_def pos_val_def demo_defs)

lemma demo_distance_pairs:
  "distance_pairs demo_game (PTuple 0 1) (get_player_units demo_game)
     = Inr [(eirika, 1), (seth, 3), (tana, 0)]"
  "distance_pairs demo_game (PTuple 7 7) (get_player_units demo_game)
     = Inr [(eirika, 12), (seth, 12), (tana, 13)]"
  by (simp_all add: calculate_distance_def pos_val_def demo_defs)

lemma demo_sorted_pairs:
  "sort_key snd [(eirika, 1::int), (seth, 3), (tana, 0)] = [(tana, 0), (eirika, 1), (seth, 3)]"
  "sort_key snd [(eirika, 12::int), (seth, 12), (tana, 13)]
     = [(eirika, 12), (seth, 12), (tana, 13)]"
  by simp_all

theorem get_closest_allies_sorted_prefix_witness:
  "(\<exists>result. get_closest_allies demo_game (PStr ''Tana'') 2 = Inr result
       \<and> int (length result) \<le> 2 \<and> sorted (map snd result))
   \<and> get_closest_allies demo_game (PStr ''Tana'') 2 = Inr [(tana, 0), (eirika, 1)]
   \<and> get_closest_allies demo_game (PUnit bandit) 2 = Inr [(eirika, 12), (seth, 12)]
   \<and> get_closest_allies demo_game (PUnit bandit) 7
         = Inr [(eirika, 12), (seth, 12), (tana, 13)]"
proof -
  have h1: "0 \<le> (2::int)" by simp
  have h2: "resolve_to_unit demo_game (PStr ''Tana'') = Some tana"
    by (simp add: resolve_to_unit_def demo_defs)
  have h3: "position tana = Some (0, 1)" by (simp add: tana_def)
  have h4: "\<forall>u \<in> set (get_player_units demo_game). position u \<noteq> None"
    by (simp add: demo_defs)
  from get_closest_allies_sorted_prefix[OF h1 h2 h3 h4]
  have a: "\<exists>result. get_closest_allies demo_game (PStr ''Tana'') 2 = Inr result
       \<and> int (length result) \<le> 2 \<and> sorted (map snd result)"
    by blast
  have b: "get_closest_allies demo_game (PStr ''Tana'') 2 = Inr [(tana, 0), (eirika, 1)]"
    by (simp add: get_closest_allies_def demo_resolve_pos demo_distance_pairs
        demo_sorted_pairs slice_to_def del: sort_key_simps)
  have c: "get_closest_allies demo_game (PUnit bandit) 2 = Inr [(eirika, 12), (seth, 12)]"
    by (simp add: get_closest_allies_def demo_resolve_pos demo_distance_pairs
        demo_sorted_pairs slice_to_def del: sort_key_simps)
  have d: "get_closest_allies demo_game (PUnit bandit) 7
             = Inr [(eirika, 12), (seth, 12), (tana, 13)]"
    by (simp add: get_closest_allies_def demo_resolve_pos demo_distance_pairs
        demo_sorted_pairs slice_to_def del: sort_key_simps)
  from a b c d show ?thesis by blast
qed

text \<open>
  The claim as stated, for every \<open>num\<close>, fails at a negative count: \<^verbatim>\<open>xs[:-1]\<close> drops the
  last pair and keeps the others, which are more than \<open>-1\<close>. The position is Tana's.
\<close>

theorem get_closest_allies_negative_num:
  "get_unit demo_game (PStr ''Tana'') = Some tana
   \<and> position tana = Some (0, 1)
   \<and> get_closest_allies demo_game (PStr ''Tana'') (- 1) = Inr [(tana, 0), (eirika, 1)]
   \<and> \<not> int (length [(tana, 0::int), (eirika, 1)]) \<le> - 1"
proof -
  have "get_unit demo_game (PStr ''Tana'') = Some tana" by (simp add: demo_defs)
  moreover have "position tana = Some (0, 1)" by (simp add: tana_def)
  moreover have "get_closest_allies demo_game (PStr ''Tana'') (- 1)
                   = Inr [(tana, 0), (eirika, 1)]"
    by (simp add: get_closest_allies_def demo_resolve_pos demo_distance_pairs
        demo_sorted_pairs slice_to_def del: sort_key_simps)
  ultimately show ?thesis by simp
qed

text \<open>
  A position given as a tile does not reach the distance computation: no unit is registered
  under a tuple, \<^verbatim>\<open>_resolve_pos\<close> returns \<open>None\<close> for it, and the distance of the first
  player unit to \<open>None\<close> raises.
\<close>

lemma get_closest_allies_unresolved:
  assumes "resolve_to_unit g position_arg = None"
  shows "get_closest_allies g position_arg num
           = (if get_player_units g = [] then Inr [] else Inl TypeError)"
proof (cases "get_player_units g")
  case Nil
  then show ?thesis
    using assms by (simp add: get_closest_allies_def resolve_pos_def slice_to_def)
next
  case (Cons u us)
  have "calculate_distance g (pos_val (position u)) PNone = Inl TypeError"
    by (simp add: calculate_distance_def split: pyval.splits)
  then show ?thesis using assms Cons by (simp add: get_closest_allies_def resolve_pos_def)
qed

subsection \<open>References that do not resolve\<close>













section \<open>Theorems on \<^verbatim>\<open>ItemPrefab.restore\<close>\<close>

lemma restored_components_filter:
  "restored_components ica (filter (restores ica) saved) = restored_components ica saved"
  by (induction saved) (auto simp: restored_components_def restores_def)

lemma restored_components_map:
  "map Some (restored_components ica saved) = map (restore_component ica) (filter (restores ica) saved)"
  by (induction saved) (auto simp: restored_components_def restores_def)

lemma restored_components_set:
  "c \<in> set (restored_components ica saved) \<longleftrightarrow> (\<exists>val \<in> set saved. restore_component ica val = Some c)"
  by (induction saved) (auto simp: restored_components_def split: option.splits)

lemma restore_ignores_failed:
  "restore ica (dat\<lparr>dat_components := filter (restores ica) (dat_components dat)\<rparr>) = restore ica dat"
  by (simp add: restore_def restored_components_filter Let_def split: sum.splits)

lemma data_append_some:
  "data_append d (Some c) = Inr (if comp_nid c \<in> set (map comp_nid d) then d else d @ [c])"
  by (simp add: data_append_def)

lemma data_append_none: "data_append d None = Inl AttributeError"
  by (simp add: data_append_def)

lemma paired_loop_fails:
  "\<exists>n \<in> set ns. n \<notin> set (map comp_nid comps) \<and> synthesised ica n = None \<Longrightarrow>
   paired_loop ica comps acc ns = Inl AttributeError"
proof (induction ns arbitrary: acc)
  case Nil
  then show ?case by simp
next
  case (Cons n ns)
  show ?case
  proof (cases "\<exists>c \<in> set comps. n = comp_nid c")
    case True
    with Cons.prems have "\<exists>m \<in> set ns. m \<notin> set (map comp_nid comps) \<and> synthesised ica m = None"
      by auto
    from Cons.IH[OF this] True show ?thesis by simp
  next
    case False
    show ?thesis
    proof (cases "synthesised ica n")
      case None
      with False show ?thesis
        by (auto simp: synthesised_def data_append_none split: option.splits)
    next
      case (Some c)
      with Cons.prems have "\<exists>m \<in> set ns. m \<notin> set (map comp_nid comps) \<and> synthesised ica m = None"
        by auto
      from Cons.IH[OF this] False Some show ?thesis
        by (auto simp: synthesised_def data_append_some Let_def split: option.splits)
    qed
  qed
qed

lemma paired_loop_ok:
  "\<forall>n \<in> set ns. n \<notin> set (map comp_nid comps) \<longrightarrow> synthesised ica n \<noteq> None \<Longrightarrow>
   \<exists>acc'. paired_loop ica comps acc ns = Inr acc'
      \<and> set acc \<subseteq> set acc'
      \<and> (\<forall>c \<in> set acc'. c \<in> set acc
            \<or> (\<exists>n \<in> set ns. n \<notin> set (map comp_nid comps) \<and> synthesised ica n = Some c))"
proof (induction ns arbitrary: acc)
  case Nil
  then show ?case by simp
next
  case (Cons n ns)
  from Cons.prems have rest:
    "\<forall>m \<in> set ns. m \<notin> set (map comp_nid comps) \<longrightarrow> synthesised ica m \<noteq> None" by simp
  show ?case
  proof (cases "\<exists>c \<in> set comps. n = comp_nid c")
    case True
    from Cons.IH[OF rest, of acc] True show ?thesis by auto
  next
    case False
    with Cons.prems obtain c where c: "synthesised ica n = Some c" by auto
    then obtain cls where cls: "get_component ica n = Some cls"
      "restore_component ica (n, comp_value cls) = Some c"
      by (auto simp: synthesised_def split: option.splits)
    define acc1 where "acc1 = (if comp_nid c \<in> set (map comp_nid acc) then acc else acc @ [c])"
    from Cons.IH[OF rest, of acc1] obtain acc' where
      a: "paired_loop ica comps acc1 ns = Inr acc'" "set acc1 \<subseteq> set acc'"
      "\<forall>d \<in> set acc'. d \<in> set acc1
            \<or> (\<exists>m \<in> set ns. m \<notin> set (map comp_nid comps) \<and> synthesised ica m = Some d)"
      by blast
    have r: "paired_loop ica comps acc (n # ns) = Inr acc'"
      using False cls a(1) by (simp add: data_append_some acc1_def Let_def)
    have s: "set acc \<subseteq> set acc'" using a(2) by (auto simp: acc1_def split: if_splits)
    have t: "\<forall>d \<in> set acc'. d \<in> set acc
            \<or> (\<exists>m \<in> set (n # ns). m \<notin> set (map comp_nid comps) \<and> synthesised ica m = Some d)"
    proof
      fix d assume "d \<in> set acc'"
      with a(3) consider "d \<in> set acc1"
        | "\<exists>m \<in> set ns. m \<notin> set (map comp_nid comps) \<and> synthesised ica m = Some d" by blast
      then show "d \<in> set acc
            \<or> (\<exists>m \<in> set (n # ns). m \<notin> set (map comp_nid comps) \<and> synthesised ica m = Some d)"
      proof cases
        case 1
        then have "d \<in> set acc \<or> d = c" by (auto simp: acc1_def split: if_splits)
        with False c show ?thesis by auto
      next
        case 2
        then show ?thesis by auto
      qed
    qed
    from r s t show ?thesis by blast
  qed
qed

lemma components_loop_fails:
  "\<exists>n \<in> set (concat (map paired_with cs)).
      n \<notin> set (map comp_nid comps) \<and> synthesised ica n = None \<Longrightarrow>
   components_loop ica comps acc cs = Inl AttributeError"
proof (induction cs arbitrary: acc)
  case Nil
  then show ?case by simp
next
  case (Cons c cs)
  define acc1 where "acc1 = (if comp_nid c \<in> set (map comp_nid acc) then acc else acc @ [c])"
  show ?case
  proof (cases "\<exists>n \<in> set (paired_with c). n \<notin> set (map comp_nid comps) \<and> synthesised ica n = None")
    case True
    from paired_loop_fails[OF this] show ?thesis
      by (simp add: data_append_some)
  next
    case False
    then have ok: "\<forall>n \<in> set (paired_with c).
        n \<notin> set (map comp_nid comps) \<longrightarrow> synthesised ica n \<noteq> None" by auto
    from paired_loop_ok[OF ok, of acc1] obtain acc2 where
      p: "paired_loop ica comps acc1 (paired_with c) = Inr acc2" by blast
    from Cons.prems False have "\<exists>n \<in> set (concat (map paired_with cs)).
      n \<notin> set (map comp_nid comps) \<and> synthesised ica n = None" by auto
    from Cons.IH[OF this, of acc2] p show ?thesis
      by (simp add: data_append_some acc1_def)
  qed
qed

lemma components_loop_ok:
  "\<forall>n \<in> set (concat (map paired_with cs)).
      n \<notin> set (map comp_nid comps) \<longrightarrow> synthesised ica n \<noteq> None \<Longrightarrow>
   \<exists>acc'. components_loop ica comps acc cs = Inr acc'
      \<and> set acc \<subseteq> set acc'
      \<and> (\<forall>d \<in> set acc'. d \<in> set acc \<or> d \<in> set cs
            \<or> (\<exists>n \<in> set (concat (map paired_with cs)).
                  n \<notin> set (map comp_nid comps) \<and> synthesised ica n = Some d))
      \<and> (\<forall>c \<in> set cs. comp_nid c \<in> set (map comp_nid acc'))"
proof (induction cs arbitrary: acc)
  case Nil
  then show ?case by simp
next
  case (Cons c cs)
  define acc1 where "acc1 = (if comp_nid c \<in> set (map comp_nid acc) then acc else acc @ [c])"
  from Cons.prems have ok: "\<forall>n \<in> set (paired_with c).
        n \<notin> set (map comp_nid comps) \<longrightarrow> synthesised ica n \<noteq> None" by simp
  from Cons.prems have rest: "\<forall>n \<in> set (concat (map paired_with cs)).
      n \<notin> set (map comp_nid comps) \<longrightarrow> synthesised ica n \<noteq> None" by simp
  from paired_loop_ok[OF ok, of acc1] obtain acc2 where
    p: "paired_loop ica comps acc1 (paired_with c) = Inr acc2" "set acc1 \<subseteq> set acc2"
    "\<forall>d \<in> set acc2. d \<in> set acc1
            \<or> (\<exists>n \<in> set (paired_with c). n \<notin> set (map comp_nid comps) \<and> synthesised ica n = Some d)"
    by blast
  from Cons.IH[OF rest, of acc2] obtain acc' where
    a: "components_loop ica comps acc2 cs = Inr acc'" "set acc2 \<subseteq> set acc'"
    "\<forall>d \<in> set acc'. d \<in> set acc2 \<or> d \<in> set cs
            \<or> (\<exists>n \<in> set (concat (map paired_with cs)).
                  n \<notin> set (map comp_nid comps) \<and> synthesised ica n = Some d)"
    "\<forall>c \<in> set cs. comp_nid c \<in> set (map comp_nid acc')"
    by blast
  have r: "components_loop ica comps acc (c # cs) = Inr acc'"
    using p(1) a(1) by (simp add: data_append_some acc1_def)
  have s1: "set acc \<subseteq> set acc1" by (auto simp: acc1_def)
  have s: "set acc \<subseteq> set acc'" using s1 p(2) a(2) by blast
  have n1: "comp_nid c \<in> set (map comp_nid acc1)" by (auto simp: acc1_def)
  have n: "\<forall>c' \<in> set (c # cs). comp_nid c' \<in> set (map comp_nid acc')"
    using n1 p(2) a(2) a(4) by auto
  have t: "\<forall>d \<in> set acc'. d \<in> set acc \<or> d \<in> set (c # cs)
            \<or> (\<exists>n \<in> set (concat (map paired_with (c # cs))).
                  n \<notin> set (map comp_nid comps) \<and> synthesised ica n = Some d)"
  proof
    fix d assume "d \<in> set acc'"
    with a(3) consider "d \<in> set acc2" | "d \<in> set cs"
      | "\<exists>n \<in> set (concat (map paired_with cs)).
                  n \<notin> set (map comp_nid comps) \<and> synthesised ica n = Some d" by blast
    then show "d \<in> set acc \<or> d \<in> set (c # cs)
            \<or> (\<exists>n \<in> set (concat (map paired_with (c # cs))).
                  n \<notin> set (map comp_nid comps) \<and> synthesised ica n = Some d)"
    proof cases
      case 1
      with p(3) consider "d \<in> set acc1"
        | "\<exists>n \<in> set (paired_with c). n \<notin> set (map comp_nid comps) \<and> synthesised ica n = Some d"
        by blast
      then show ?thesis
      proof cases
        case 1
        then have "d \<in> set acc \<or> d = c" by (auto simp: acc1_def split: if_splits)
        then show ?thesis by auto
      next
        case 2
        then show ?thesis by auto
      qed
    next
      case 2
      then show ?thesis by simp
    next
      case 3
      then show ?thesis by auto
    qed
  qed
  from r s t n show ?case by blast
qed

lemma components_loop_unpaired:
  "\<forall>c \<in> set cs. paired_with c = [] \<Longrightarrow>
   \<exists>acc'. components_loop ica comps acc cs = Inr acc'
      \<and> length acc' \<le> length acc + length cs
      \<and> (distinct (map comp_nid (acc @ cs)) \<longrightarrow> acc' = acc @ cs)"
proof (induction cs arbitrary: acc)
  case Nil
  then show ?case by simp
next
  case (Cons c cs)
  define acc1 where "acc1 = (if comp_nid c \<in> set (map comp_nid acc) then acc else acc @ [c])"
  from Cons.prems have rest: "\<forall>c \<in> set cs. paired_with c = []" by simp
  from Cons.IH[OF rest, of acc1] obtain acc' where
    a: "components_loop ica comps acc1 cs = Inr acc'"
    "length acc' \<le> length acc1 + length cs"
    "distinct (map comp_nid (acc1 @ cs)) \<longrightarrow> acc' = acc1 @ cs"
    by blast
  have r: "components_loop ica comps acc (c # cs) = Inr acc'"
    using Cons.prems a(1) by (simp add: data_append_some acc1_def)
  have l: "length acc' \<le> length acc + length (c # cs)"
    using a(2) by (simp add: acc1_def split: if_splits)
  have d: "distinct (map comp_nid (acc @ c # cs)) \<longrightarrow> acc' = acc @ c # cs"
  proof
    assume dd: "distinct (map comp_nid (acc @ c # cs))"
    then have "comp_nid c \<notin> set (map comp_nid acc)" by auto
    then have e: "acc1 = acc @ [c]" by (simp add: acc1_def)
    with dd a(3) show "acc' = acc @ c # cs" by simp
  qed
  from r l d show ?case by blast
qed

lemma find_app:
  "find P (xs @ ys) = (case find P xs of None \<Rightarrow> find P ys | Some x \<Rightarrow> Some x)"
  by (induction xs) auto

lemma find_SomeD: "find P xs = Some x \<Longrightarrow> x \<in> set xs \<and> P x"
  by (induction xs) (auto split: if_splits)

lemma find_NoneI: "\<forall>x \<in> set xs. \<not> P x \<Longrightarrow> find P xs = None"
  by (induction xs) auto

lemma find_NoneD: "find P xs = None \<Longrightarrow> x \<in> set xs \<Longrightarrow> \<not> P x"
  by (induction xs) (auto split: if_splits)

lemma fold_components:
  "fold (\<lambda>component dict. dict(comp_nid component \<mapsto> AComponent component)) cs m k =
     (case find (\<lambda>c. comp_nid c = k) (rev cs) of
        None \<Rightarrow> m k
      | Some c \<Rightarrow> Some (AComponent c))"
  by (induction cs arbitrary: m) (auto simp: find_app split: option.splits)

lemma init_prefab_components:
  "''components'' \<notin> set (map comp_nid cs) \<Longrightarrow>
   init_prefab n name desc icon idx cs ''components'' = Some (AData cs)"
proof -
  assume a: "''components'' \<notin> set (map comp_nid cs)"
  have "find (\<lambda>c. comp_nid c = ''components'') (rev cs) = None"
  proof (rule find_NoneI, rule ballI)
    fix x assume "x \<in> set (rev cs)"
    then have "comp_nid x \<in> set (map comp_nid cs)" by simp
    with a show "comp_nid x \<noteq> ''components''" by metis
  qed
  then show ?thesis by (simp add: init_prefab_def fold_components)
qed

lemma init_prefab_component:
  "init_prefab n name desc icon idx cs k = Some (AComponent c) \<Longrightarrow> c \<in> set cs \<and> comp_nid c = k"
proof -
  assume a: "init_prefab n name desc icon idx cs k = Some (AComponent c)"
  show ?thesis
  proof (cases "find (\<lambda>c. comp_nid c = k) (rev cs)")
    case None
    with a show ?thesis
      by (auto simp: init_prefab_def fold_components split: if_splits option.splits)
  next
    case (Some d)
    with a have "d = c" by (simp add: init_prefab_def fold_components)
    with find_SomeD[OF Some] show ?thesis by simp
  qed
qed

lemma init_prefab_data:
  "init_prefab n name desc icon idx cs k = Some (AData ds) \<Longrightarrow> ds = cs"
  by (auto simp: init_prefab_def fold_components split: if_splits option.splits)

lemma init_prefab_holds:
  "c \<in> set cs \<Longrightarrow>
   \<exists>c' \<in> set cs. comp_nid c' = comp_nid c
      \<and> init_prefab n name desc icon idx cs (comp_nid c) = Some (AComponent c')"
proof -
  assume a: "c \<in> set cs"
  have "find (\<lambda>d. comp_nid d = comp_nid c) (rev cs) \<noteq> None"
  proof
    assume "find (\<lambda>d. comp_nid d = comp_nid c) (rev cs) = None"
    from find_NoneD[OF this, of c] a show False by simp
  qed
  then obtain d where d: "find (\<lambda>d. comp_nid d = comp_nid c) (rev cs) = Some d" by auto
  from find_SomeD[OF d] d show ?thesis by (auto simp: init_prefab_def fold_components)
qed

lemma restored_components_length:
  "length (restored_components ica saved) = length (filter (restores ica) saved)"
  by (induction saved) (auto simp: restored_components_def restores_def)

lemma restore_result:
  "restore ica dat =
     (case components_loop ica (restored_components ica (dat_components dat)) []
             (restored_components ica (dat_components dat)) of
        Inl e \<Rightarrow> Inl e
      | Inr all_components \<Rightarrow>
          Inr (init_prefab (dat_nid dat) (dat_name dat) (dat_desc dat) (dat_icon_nid dat)
                 (dat_icon_index dat) all_components))"
  by (simp add: restore_def Let_def)

lemma restore_raises_iff:
  "restore ica dat = Inl AttributeError \<longleftrightarrow>
     (\<exists>n \<in> set (missing_pairs (restored_components ica (dat_components dat))).
         synthesised ica n = None)"
proof
  let ?comps = "restored_components ica (dat_components dat)"
  assume r: "restore ica dat = Inl AttributeError"
  show "\<exists>n \<in> set (missing_pairs ?comps). synthesised ica n = None"
  proof (rule ccontr)
    assume "\<not> (\<exists>n \<in> set (missing_pairs ?comps). synthesised ica n = None)"
    then have "\<forall>n \<in> set (concat (map paired_with ?comps)).
      n \<notin> set (map comp_nid ?comps) \<longrightarrow> synthesised ica n \<noteq> None"
      by (auto simp: missing_pairs_def)
    from components_loop_ok[OF this, of "[]"] obtain acc' where
      "components_loop ica ?comps [] ?comps = Inr acc'" by blast
    with r show False by (simp add: restore_result)
  qed
next
  let ?comps = "restored_components ica (dat_components dat)"
  assume "\<exists>n \<in> set (missing_pairs ?comps). synthesised ica n = None"
  then have "\<exists>n \<in> set (concat (map paired_with ?comps)).
      n \<notin> set (map comp_nid ?comps) \<and> synthesised ica n = None"
    by (auto simp: missing_pairs_def)
  from components_loop_fails[OF this, of "[]"] show "restore ica dat = Inl AttributeError"
    by (simp add: restore_result)
qed

lemma restore_item:
  assumes "restore ica dat = Inr item"
  shows "\<exists>all_components.
           item = init_prefab (dat_nid dat) (dat_name dat) (dat_desc dat) (dat_icon_nid dat)
                    (dat_icon_index dat) all_components
         \<and> (\<forall>c \<in> set all_components. restored_from ica (dat_components dat) c)
         \<and> (\<forall>c \<in> set (restored_components ica (dat_components dat)).
                comp_nid c \<in> set (map comp_nid all_components))"
proof -
  let ?comps = "restored_components ica (dat_components dat)"
  from assms obtain ac where
    l: "components_loop ica ?comps [] ?comps = Inr ac"
    and i: "item = init_prefab (dat_nid dat) (dat_name dat) (dat_desc dat) (dat_icon_nid dat)
                    (dat_icon_index dat) ac"
    by (auto simp: restore_result split: sum.splits)
  have nofail: "\<not> (\<exists>n \<in> set (missing_pairs ?comps). synthesised ica n = None)"
    using assms restore_raises_iff[of ica dat] by simp
  then have "\<forall>n \<in> set (concat (map paired_with ?comps)).
      n \<notin> set (map comp_nid ?comps) \<longrightarrow> synthesised ica n \<noteq> None"
    by (auto simp: missing_pairs_def)
  from components_loop_ok[OF this, of "[]"] l have
    a: "\<forall>d \<in> set ac. d \<in> set ?comps
            \<or> (\<exists>n \<in> set (concat (map paired_with ?comps)).
                  n \<notin> set (map comp_nid ?comps) \<and> synthesised ica n = Some d)"
    and b: "\<forall>c \<in> set ?comps. comp_nid c \<in> set (map comp_nid ac)"
    by auto
  have "\<forall>c \<in> set ac. restored_from ica (dat_components dat) c"
  proof
    fix c assume "c \<in> set ac"
    with a consider "c \<in> set ?comps"
      | "\<exists>n \<in> set (concat (map paired_with ?comps)).
                  n \<notin> set (map comp_nid ?comps) \<and> synthesised ica n = Some c" by blast
    then show "restored_from ica (dat_components dat) c"
    proof cases
      case 1
      then show ?thesis by (simp add: restored_from_def restored_components_set)
    next
      case 2
      then have "\<exists>n \<in> set (missing_pairs ?comps). synthesised ica n = Some c"
        by (auto simp: missing_pairs_def)
      then show ?thesis by (simp add: restored_from_def)
    qed
  qed
  with i b show ?thesis by blast
qed

lemma restore_unpaired:
  assumes "\<forall>c \<in> set (restored_components ica (dat_components dat)). paired_with c = []"
    and "''components'' \<notin> set (map comp_nid (restored_components ica (dat_components dat)))"
  shows "\<exists>item cs. restore ica dat = Inr item \<and> item ''components'' = Some (AData cs)
           \<and> length cs \<le> length (filter (restores ica) (dat_components dat))
           \<and> (distinct (map comp_nid (restored_components ica (dat_components dat))) \<longrightarrow>
                 map Some cs
                   = map (restore_component ica) (filter (restores ica) (dat_components dat)))"
proof -
  let ?comps = "restored_components ica (dat_components dat)"
  from components_loop_unpaired[OF assms(1), of ica ?comps "[]"] obtain ac where
    l: "components_loop ica ?comps [] ?comps = Inr ac"
    and len: "length ac \<le> length ?comps"
    and d: "distinct (map comp_nid ?comps) \<longrightarrow> ac = ?comps"
    by auto
  define item where "item = init_prefab (dat_nid dat) (dat_name dat) (dat_desc dat)
      (dat_icon_nid dat) (dat_icon_index dat) ac"
  have r: "restore ica dat = Inr item" using l by (simp add: restore_result item_def)
  have "\<forall>n \<in> set (concat (map paired_with ?comps)).
      n \<notin> set (map comp_nid ?comps) \<longrightarrow> synthesised ica n \<noteq> None"
    using assms(1) by simp
  from components_loop_ok[OF this, of "[]"] l assms(1)
  have "\<forall>c \<in> set ac. c \<in> set ?comps" by auto
  then have "''components'' \<notin> set (map comp_nid ac)" using assms(2) by auto
  then have c: "item ''components'' = Some (AData ac)"
    unfolding item_def by (rule init_prefab_components)
  have len': "length ac \<le> length (filter (restores ica) (dat_components dat))"
    using len by (simp add: restored_components_length)
  have eq: "distinct (map comp_nid ?comps) \<longrightarrow>
        map Some ac = map (restore_component ica) (filter (restores ica) (dat_components dat))"
    using d by (auto simp: restored_components_map)
  from r c len' eq show ?thesis by blast
qed

text \<open>
  Claim C10. \<^verbatim>\<open>restore\<close> never yields an item that contains a failed component: every
  component of a restored item, whether an attribute of its own or an entry of a component
  container, is the successful restoration of a saved component or of the default of a
  missing pair, and every saved component that restores is in the item, under its nid. A
  saved component whose restoration returns \<open>None\<close> is silently omitted: \<^verbatim>\<open>restore\<close> gives
  the same result as on the saved data with those entries deleted, so no error is raised on
  their account. The only exception \<^verbatim>\<open>restore\<close> raises is \<^verbatim>\<open>AttributeError\<close>, and it raises
  it exactly when a missing pair cannot be synthesised, in which case no item is yielded.
  When nothing has to be synthesised (and no component is called \<^verbatim>\<open>components\<close>, which
  would replace the container), the item's container holds no more than the saved components
  that restore, exactly those in order when their nids are distinct; so when some saved
  component fails, the restored item carries fewer components than were saved.
\<close>

theorem restore_omits_failed_components:
  "restore ica (dat\<lparr>dat_components := filter (restores ica) (dat_components dat)\<rparr>)
     = restore ica dat
   \<and> (\<forall>item. restore ica dat = Inr item \<longrightarrow>
        (\<forall>k c. item k = Some (AComponent c) \<longrightarrow> restored_from ica (dat_components dat) c)
      \<and> (\<forall>k cs. item k = Some (AData cs) \<longrightarrow>
            (\<forall>c \<in> set cs. restored_from ica (dat_components dat) c))
      \<and> (\<forall>val \<in> set (dat_components dat). \<forall>c. restore_component ica val = Some c \<longrightarrow>
            (\<exists>c'. item (comp_nid c) = Some (AComponent c') \<and> comp_nid c' = comp_nid c)))
   \<and> (restore ica dat = Inl AttributeError \<longleftrightarrow>
        (\<exists>n \<in> set (missing_pairs (restored_components ica (dat_components dat))).
            synthesised ica n = None))
   \<and> (restore ica dat \<noteq> Inl TypeError)
   \<and> ((\<forall>c \<in> set (restored_components ica (dat_components dat)). paired_with c = [])
        \<and> ''components'' \<notin> set (map comp_nid (restored_components ica (dat_components dat)))
       \<longrightarrow>
        (\<exists>item cs. restore ica dat = Inr item \<and> item ''components'' = Some (AData cs)
           \<and> length cs \<le> length (filter (restores ica) (dat_components dat))
           \<and> (distinct (map comp_nid (restored_components ica (dat_components dat))) \<longrightarrow>
                 map Some cs
                   = map (restore_component ica) (filter (restores ica) (dat_components dat)))))
   \<and> ((\<forall>c \<in> set (restored_components ica (dat_components dat)). paired_with c = [])
        \<and> ''components'' \<notin> set (map comp_nid (restored_components ica (dat_components dat)))
        \<and> (\<exists>val \<in> set (dat_components dat). restore_component ica val = None) \<longrightarrow>
        (\<exists>item cs. restore ica dat = Inr item \<and> item ''components'' = Some (AData cs)
           \<and> length cs < length (dat_components dat)))"
proof -
  let ?saved = "dat_components dat"
  let ?comps = "restored_components ica ?saved"
  have a: "restore ica (dat\<lparr>dat_components := filter (restores ica) ?saved\<rparr>) = restore ica dat"
    by (rule restore_ignores_failed)
  have b: "\<forall>item. restore ica dat = Inr item \<longrightarrow>
        (\<forall>k c. item k = Some (AComponent c) \<longrightarrow> restored_from ica ?saved c)
      \<and> (\<forall>k cs. item k = Some (AData cs) \<longrightarrow> (\<forall>c \<in> set cs. restored_from ica ?saved c))
      \<and> (\<forall>val \<in> set ?saved. \<forall>c. restore_component ica val = Some c \<longrightarrow>
            (\<exists>c'. item (comp_nid c) = Some (AComponent c') \<and> comp_nid c' = comp_nid c))"
  proof (intro allI impI)
    fix item assume r: "restore ica dat = Inr item"
    from restore_item[OF r] obtain ac where
      i: "item = init_prefab (dat_nid dat) (dat_name dat) (dat_desc dat) (dat_icon_nid dat)
                    (dat_icon_index dat) ac"
      and sub: "\<forall>c \<in> set ac. restored_from ica ?saved c"
      and nids: "\<forall>c \<in> set ?comps. comp_nid c \<in> set (map comp_nid ac)"
      by blast
    have b1: "\<forall>k c. item k = Some (AComponent c) \<longrightarrow> restored_from ica ?saved c"
      using init_prefab_component sub unfolding i by blast
    have b2: "\<forall>k cs. item k = Some (AData cs) \<longrightarrow> (\<forall>c \<in> set cs. restored_from ica ?saved c)"
      using init_prefab_data sub unfolding i by blast
    have b3: "\<forall>val \<in> set ?saved. \<forall>c. restore_component ica val = Some c \<longrightarrow>
            (\<exists>c'. item (comp_nid c) = Some (AComponent c') \<and> comp_nid c' = comp_nid c)"
    proof (intro ballI allI impI)
      fix val c assume "val \<in> set ?saved" "restore_component ica val = Some c"
      then have "c \<in> set ?comps" by (auto simp: restored_components_set)
      with nids obtain d where d: "d \<in> set ac" "comp_nid d = comp_nid c" by auto
      from init_prefab_holds[OF d(1), of "dat_nid dat" "dat_name dat" "dat_desc dat"
          "dat_icon_nid dat" "dat_icon_index dat"] d(2)
      show "\<exists>c'. item (comp_nid c) = Some (AComponent c') \<and> comp_nid c' = comp_nid c"
        unfolding i by auto
    qed
    from b1 b2 b3 show "(\<forall>k c. item k = Some (AComponent c) \<longrightarrow> restored_from ica ?saved c)
      \<and> (\<forall>k cs. item k = Some (AData cs) \<longrightarrow> (\<forall>c \<in> set cs. restored_from ica ?saved c))
      \<and> (\<forall>val \<in> set ?saved. \<forall>c. restore_component ica val = Some c \<longrightarrow>
            (\<exists>c'. item (comp_nid c) = Some (AComponent c') \<and> comp_nid c' = comp_nid c))"
      by blast
  qed
  have c: "restore ica dat = Inl AttributeError \<longleftrightarrow>
        (\<exists>n \<in> set (missing_pairs ?comps). synthesised ica n = None)"
    by (rule restore_raises_iff)
  have c': "restore ica dat \<noteq> Inl TypeError"
  proof (cases "\<exists>n \<in> set (missing_pairs ?comps). synthesised ica n = None")
    case True
    with c show ?thesis by simp
  next
    case False
    then have "\<forall>n \<in> set (concat (map paired_with ?comps)).
      n \<notin> set (map comp_nid ?comps) \<longrightarrow> synthesised ica n \<noteq> None"
      by (auto simp: missing_pairs_def)
    from components_loop_ok[OF this, of "[]"] show ?thesis
      by (auto simp: restore_result)
  qed
  have d: "(\<forall>c \<in> set ?comps. paired_with c = [])
        \<and> ''components'' \<notin> set (map comp_nid ?comps) \<longrightarrow>
        (\<exists>item cs. restore ica dat = Inr item \<and> item ''components'' = Some (AData cs)
           \<and> length cs \<le> length (filter (restores ica) ?saved)
           \<and> (distinct (map comp_nid ?comps) \<longrightarrow>
                 map Some cs = map (restore_component ica) (filter (restores ica) ?saved)))"
    using restore_unpaired[of ica dat] by blast
  have e: "(\<forall>c \<in> set ?comps. paired_with c = [])
        \<and> ''components'' \<notin> set (map comp_nid ?comps)
        \<and> (\<exists>val \<in> set ?saved. restore_component ica val = None) \<longrightarrow>
        (\<exists>item cs. restore ica dat = Inr item \<and> item ''components'' = Some (AData cs)
           \<and> length cs < length ?saved)"
  proof
    assume h: "(\<forall>c \<in> set ?comps. paired_with c = [])
        \<and> ''components'' \<notin> set (map comp_nid ?comps)
        \<and> (\<exists>val \<in> set ?saved. restore_component ica val = None)"
    then obtain val where "val \<in> set ?saved" "\<not> restores ica val"
      by (auto simp: restores_def)
    then have lt: "length (filter (restores ica) ?saved) < length ?saved"
      by (rule length_filter_less)
    from h d obtain item cs where "restore ica dat = Inr item"
      "item ''components'' = Some (AData cs)"
      "length cs \<le> length (filter (restores ica) ?saved)" by blast
    with lt show "\<exists>item cs. restore ica dat = Inr item \<and> item ''components'' = Some (AData cs)
           \<and> length cs < length ?saved"
      by (meson le_less_trans)
  qed
  from a b c c' d e show ?thesis by blast
qed

text \<open>
  An item saved with a component class that no longer exists, \<^verbatim>\<open>hp_cost\<close>; an item whose
  \<^verbatim>\<open>uses\<close> component gets its pair synthesised; and the same item when the pair's default
  does not restore.
\<close>

lemma demo_fewer:
  "restore demo_ica (demo_dat [(''weapon'', 1), (''hp_cost'', 7)]) =
     Inr (init_prefab ''Iron Sword'' ''Iron Sword'' ''A sword.'' None (0, 0)
            [\<lparr>comp_nid = ''weapon'', comp_value = 1, paired_with = []\<rparr>])"
  by (simp add: restore_def restored_components_def demo_ica_def demo_dat_def data_append_def)

lemma demo_paired:
  "restore demo_ica (demo_dat [(''hp_cost'', 7), (''uses'', 30)]) =
     Inr (init_prefab ''Iron Sword'' ''Iron Sword'' ''A sword.'' None (0, 0)
            [\<lparr>comp_nid = ''uses'', comp_value = 30, paired_with = [''uses_options'']\<rparr>,
             \<lparr>comp_nid = ''uses_options'', comp_value = 0, paired_with = []\<rparr>])"
  by (simp add: restore_def restored_components_def demo_ica_def demo_dat_def data_append_def)

theorem restore_omits_failed_components_witness:
  "restore demo_ica (demo_dat [(''weapon'', 1)])
     = restore demo_ica (demo_dat [(''weapon'', 1), (''hp_cost'', 7)])
   \<and> (\<exists>item cs. restore demo_ica (demo_dat [(''weapon'', 1), (''hp_cost'', 7)]) = Inr item
         \<and> item ''components'' = Some (AData cs) \<and> length cs < 2)
   \<and> (\<exists>item. restore demo_ica (demo_dat [(''weapon'', 1), (''hp_cost'', 7)]) = Inr item
         \<and> item ''components''
             = Some (AData [\<lparr>comp_nid = ''weapon'', comp_value = 1, paired_with = []\<rparr>])
         \<and> item ''weapon''
             = Some (AComponent \<lparr>comp_nid = ''weapon'', comp_value = 1, paired_with = []\<rparr>)
         \<and> item ''hp_cost'' = None)
   \<and> (\<exists>item. restore demo_ica (demo_dat [(''hp_cost'', 7), (''uses'', 30)]) = Inr item
         \<and> item ''components''
             = Some (AData
                  [\<lparr>comp_nid = ''uses'', comp_value = 30, paired_with = [''uses_options'']\<rparr>,
                   \<lparr>comp_nid = ''uses_options'', comp_value = 0, paired_with = []\<rparr>]))
   \<and> restore stale_ica (demo_dat [(''hp_cost'', 7), (''uses'', 30)]) = Inl AttributeError"
proof -
  let ?d = "demo_dat [(''weapon'', 1), (''hp_cost'', 7)]"
  let ?e = "demo_dat [(''hp_cost'', 7), (''uses'', 30)]"
  have keep: "?d\<lparr>dat_components := filter (restores demo_ica) (dat_components ?d)\<rparr>
                = demo_dat [(''weapon'', 1)]"
    by (simp add: demo_dat_def restores_def demo_ica_def)
  have comps: "restored_components demo_ica (dat_components ?d)
                 = [\<lparr>comp_nid = ''weapon'', comp_value = 1, paired_with = []\<rparr>]"
    by (simp add: demo_dat_def restored_components_def demo_ica_def)
  have fails: "\<exists>val \<in> set (dat_components ?d). restore_component demo_ica val = None"
    by (simp add: demo_dat_def demo_ica_def)
  have len: "length (dat_components ?d) = 2" by (simp add: demo_dat_def)
  have stale: "restored_components stale_ica (dat_components ?e)
                 = [\<lparr>comp_nid = ''uses'', comp_value = 30, paired_with = [''uses_options'']\<rparr>]"
    by (simp add: demo_dat_def restored_components_def stale_ica_def demo_ica_def)
  have nosynth: "synthesised stale_ica ''uses_options'' = None"
    by (simp add: synthesised_def stale_ica_def demo_ica_def)
  have a: "restore demo_ica (demo_dat [(''weapon'', 1)]) = restore demo_ica ?d"
    using restore_omits_failed_components[of demo_ica ?d] keep by simp
  have b: "\<exists>item cs. restore demo_ica ?d = Inr item
         \<and> item ''components'' = Some (AData cs) \<and> length cs < 2"
    using restore_omits_failed_components[of demo_ica ?d] comps fails len by simp
  have c: "\<exists>item. restore demo_ica ?d = Inr item
         \<and> item ''components''
             = Some (AData [\<lparr>comp_nid = ''weapon'', comp_value = 1, paired_with = []\<rparr>])
         \<and> item ''weapon''
             = Some (AComponent \<lparr>comp_nid = ''weapon'', comp_value = 1, paired_with = []\<rparr>)
         \<and> item ''hp_cost'' = None"
    using demo_fewer by (simp add: init_prefab_def)
  have d: "\<exists>item. restore demo_ica ?e = Inr item
         \<and> item ''components''
             = Some (AData
                  [\<lparr>comp_nid = ''uses'', comp_value = 30, paired_with = [''uses_options'']\<rparr>,
                   \<lparr>comp_nid = ''uses_options'', comp_value = 0, paired_with = []\<rparr>])"
    using demo_paired by (simp add: init_prefab_def)
  have e: "restore stale_ica ?e = Inl AttributeError"
    using restore_omits_failed_components[of stale_ica ?e] stale nosynth
    by (simp add: missing_pairs_def)
  from a b c d e show ?thesis by blast
qed

section \<open>Theorems on \<^verbatim>\<open>validate_tokens\<close>\<close>

lemma parse_line_complete:
  "parse_line catalog line strict = (Some command, loc) \<Longrightarrow>
   set (cmd_keywords command) \<subseteq> fst ` set (cmd_values command)"
proof -
  assume a: "parse_line catalog line strict = (Some command, loc)"
  then have "\<exists>name arguments kws. length kws \<le> length arguments
      \<and> command = \<lparr>cmd_nid = name, cmd_keywords = kws, cmd_values = zip kws arguments\<rparr>"
    by (fastforce simp: parse_line_def not_less split: list.splits option.splits if_splits)
  then obtain name arguments kws where
    "length kws \<le> length arguments"
    "command = \<lparr>cmd_nid = name, cmd_keywords = kws, cmd_values = zip kws arguments\<rparr>"
    by blast
  then show ?thesis by (simp add: map_fst_zip_take flip: set_map)
qed

text \<open>The example parser keeps the invariant on every line.\<close>

lemma demo_validation_complete: "strict_parse_complete demo_validation line"
proof (cases "parse_line demo_catalog line True")
  case (Pair c loc)
  then show ?thesis
    using parse_line_complete[of demo_catalog line True]
    by (cases c) (auto simp: strict_parse_complete_def demo_validation_def)
qed

lemma demo_lines:
  "parse_line demo_catalog ''speak'' True = (None, Some 0)"
  "parse_line demo_catalog ''speak;Eirika'' True = (None, Some 1)"
  "parse_line demo_catalog ''spek;Eirika;Hello'' True = (None, Some 0)"
  "parse_line demo_catalog ''speak;Ghost;Hello'' True
     = (Some \<lparr>cmd_nid = ''speak'', cmd_keywords = [''Speaker'', ''Text''],
              cmd_values = [(''Speaker'', ''Ghost''), (''Text'', ''Hello'')]\<rparr>, None)"
  by (simp_all add: parse_line_def demo_catalog_def)

text \<open>
  Claim C8, as the code has it. When the strict parser refuses a line and reports an
  error location \<open>i\<close> (by its contract, for a missing required keyword, the index of the
  argument expected to hold it), \<^verbatim>\<open>validate_tokens\<close> reports the single token \<open>i + 1\<close>,
  which is the token of that argument, when \<open>i\<close> is not \<open>0\<close>; for \<open>i = 0\<close>, the first
  argument, it reports token \<open>0\<close>, the command name, as it does when the parser gives no
  location. When the parser returns a command, the result is the list of the tokens whose
  arguments the validators reject (\<^verbatim>\<open>'all'\<close> when one of the calls raises) provided every
  required keyword of the command is among the parameters \<^verbatim>\<open>parse\<close> extracts, as the
  invariant of a parsed command has it, and \<^verbatim>\<open>'all'\<close> otherwise.
\<close>

theorem validate_tokens_missing_keyword:
  "(parse_text_to_command env line True = Inr (None, Some loc) \<and> loc \<noteq> 0
    \<longrightarrow> validate_tokens env line = Args [loc + 1])
   \<and> (parse_text_to_command env line True = Inr (None, Some 0)
       \<or> parse_text_to_command env line True = Inr (None, None)
    \<longrightarrow> validate_tokens env line = Args [0])
   \<and> (parse_text_to_command env line True = Inr (Some command, error_loc)
      \<and> parse env command = Inr (parameters, flags)
    \<longrightarrow> validate_tokens env line =
          (if set (cmd_keywords command) \<subseteq> fst ` set parameters
           then (case broken_args_loop env command parameters of
                   Inl e \<Rightarrow> All
                 | Inr broken_args \<Rightarrow> Args broken_args)
           else All))"
  by (auto simp: validate_tokens_def)

theorem validate_tokens_missing_keyword_witness:
  "validate_tokens demo_validation ''speak;Eirika'' = Args [2]
   \<and> validate_tokens demo_validation ''speak'' = Args [0]
   \<and> validate_tokens demo_validation ''spek;Eirika;Hello'' = Args [0]
   \<and> validate_tokens demo_validation ''speak;Ghost;Hello'' = Args [1]"
proof -
  let ?c = "\<lparr>cmd_nid = ''speak'', cmd_keywords = [''Speaker'', ''Text''],
              cmd_values = [(''Speaker'', ''Ghost''), (''Text'', ''Hello'')]\<rparr>"
  have a: "validate_tokens demo_validation ''speak;Eirika'' = Args [2]"
    using validate_tokens_missing_keyword
      [of demo_validation "''speak;Eirika''" 1 ?c None "cmd_values ?c" "{}"]
    by (simp add: demo_validation_def demo_lines)
  have b: "validate_tokens demo_validation ''speak'' = Args [0]"
    using validate_tokens_missing_keyword
      [of demo_validation "''speak''" 1 ?c None "cmd_values ?c" "{}"]
    by (simp add: demo_validation_def demo_lines)
  have c: "validate_tokens demo_validation ''spek;Eirika;Hello'' = Args [0]"
    using validate_tokens_missing_keyword
      [of demo_validation "''spek;Eirika;Hello''" 1 ?c None "cmd_values ?c" "{}"]
    by (simp add: demo_validation_def demo_lines)
  have d: "validate_tokens demo_validation ''speak;Ghost;Hello'' = Args [1]"
    using validate_tokens_missing_keyword
      [of demo_validation "''speak;Ghost;Hello''" 1 ?c None "cmd_values ?c" "{}"]
    by (simp add: demo_validation_def demo_lines)
  from a b c d show ?thesis by blast
qed

text \<open>
  The claim as stated fails for the first argument: the bare line \<^verbatim>\<open>speak\<close> names a known
  command, its required keyword \<^verbatim>\<open>Speaker\<close> is missing, the argument expected to hold it has
  index \<open>0\<close> and is token \<open>1\<close> of a line, and the result is token \<open>0\<close>, the command name.
\<close>

theorem validate_tokens_first_argument:
  "map_of demo_catalog ''speak'' = Some [''Speaker'', ''Text'']
   \<and> parse_text_to_command demo_validation ''speak'' True = Inr (None, Some 0)
   \<and> validate_tokens demo_validation ''speak'' = Args [0]
   \<and> validate_tokens demo_validation ''speak'' \<noteq> Args [0 + 1]"
proof -
  have "map_of demo_catalog ''speak'' = Some [''Speaker'', ''Text'']"
    by (simp add: demo_catalog_def)
  moreover have "parse_text_to_command demo_validation ''speak'' True = Inr (None, Some 0)"
    by (simp add: demo_validation_def demo_lines)
  moreover have "validate_tokens demo_validation ''speak'' = Args [0]"
    by (simp add: validate_tokens_def demo_validation_def demo_lines)
  ultimately show ?thesis by simp
qed

section \<open>Theorems on the free-roam state\<close>

subsection \<open>Basic facts about positions, the board and the recorded calls\<close>

lemma py_int_tile [simp]: "py_int (of_int i) = i"
  by (simp add: py_int_def)

lemma py_round_tile [simp]: "py_round (of_int i) = i"
  by (simp add: py_round_def)

lemma board_set_position [simp]: "board (set_position g m q) = board g"
  by (simp add: set_position_def)

lemma effects_set_position [simp]: "effects (set_position g m q) = effects g"
  by (simp add: set_position_def)

lemma unit_position_arrive [simp]: "unit_position (arrive g m) n = unit_position g n"
  by (simp add: unit_position_def arrive_def)

lemma effects_arrive [simp]: "effects (arrive g m) = effects g @ [Arrive m]"
  by (simp add: arrive_def)

lemma level_regions_set_position [simp]: "level_regions (set_position g m q) = level_regions g"
  by (simp add: set_position_def)

lemma level_regions_arrive [simp]: "level_regions (arrive g m) = level_regions g"
  by (simp add: arrive_def)

subsection \<open>Passability\<close>




lemma no_bumps_free: "board g t = None \<Longrightarrow> no_bumps env g roam (fst t) (snd t)"
  by (simp add: no_bumps_def)












lemma float_literals:
  "fl (4 / 10) = 7205759403792794 / 2 ^ 54"
  "fl (8 / 1000) = 4611686018427388 / 2 ^ 59"
  "fl (1 / 100) = 5764607523034235 / 2 ^ 59"
  "fl (1 / 10) = 7205759403792794 / 2 ^ 56"
  "fl (15 / 100) = 5404319552844595 / 2 ^ 55"
  by (simp_all add: fl_def float_exponent_def compute_floorlog pow2_def py_round_def Let_def)







text \<open>Evaluation on the example map, where Eirika walks at \<open>(2.5, 3.25)\<close>.\<close>

lemmas float_eval = fl_def float_exponent_def compute_floorlog pow2_def py_round_def Let_def



text \<open>
  Two positions at which the float sum and the exact sum round to different tiles: at the
  float \<open>0.1\<close> the sum with \<open>0.4\<close> is the float \<open>0.5\<close>, which rounds to \<open>0\<close>, and at
  \<open>1.0999999999999999\<close> it is \<open>1.5\<close>, which rounds to \<open>2\<close>.
\<close>

lemma float_sums:
  "fl (1 / 10) = 3602879701896397 / 2 ^ 55"
  "fl (fl (1 / 10) + fl (4 / 10)) = 1 / 2"
  "check_tile (fl (1 / 10), 0) ''RIGHT'' = (0, 0)"
  "is_float (4953959590107545 / 2 ^ 52)"
  "fl (4953959590107545 / 2 ^ 52 + fl (4 / 10)) = 3 / 2"
  "check_tile (4953959590107545 / 2 ^ 52, 0) ''RIGHT'' = (2, 0)"
  by (simp_all add: check_tile_def is_float_def float_eval)











subsection \<open>Rationalization\<close>

lemma unit_position_set_other:
  "m \<noteq> n \<Longrightarrow> unit_position (set_position g m q) n = unit_position g n"
  by (simp add: unit_position_def set_position_def)

lemma unit_position_set_same:
  "unit_position g n = Some p \<Longrightarrow> unit_position (set_position g n q) n = q"
  by (auto simp: unit_position_def set_position_def split: option.splits)

lemma board_arrive_tile:
  "unit_position g m = Some (tile_pos q) \<Longrightarrow> board (arrive g m) = (board g)(q \<mapsto> m)"
  by (simp add: arrive_def tile_pos_def)

lemma board_arrive_none:
  "unit_position g m = None \<Longrightarrow> board (arrive g m) = board g"
  by (simp add: arrive_def)

lemma arrive_places:
  assumes "unit_position g n = Some p"
  shows "placed (arrive (set_position g n (Some (tile_pos t))) n) n t"
proof -
  have "unit_position (set_position g n (Some (tile_pos t))) n = Some (tile_pos t)"
    using assms by (rule unit_position_set_same)
  then show ?thesis by (simp add: placed_def board_arrive_tile)
qed

lemma rationalize_unit_keeps_placed:
  assumes "only_open_tiles env" and "placed g n t" and "rationalize_unit env g m = (e, g')"
  shows "placed g' n t"
proof (cases "unit_position g m")
  case None
  with assms(3) have "g' = g" by (simp add: rationalize_unit_def)
  with assms(2) show ?thesis by simp
next
  case (Some p)
  obtain a b where p: "p = (a, b)" by (cases p)
  define new_pos where "new_pos = (py_int a, py_int b)"
  define new_pos' where "new_pos' =
     (if board g new_pos \<noteq> None \<and> board g new_pos \<noteq> Some m
      then get_nearest_open_tile env g m new_pos else Some new_pos)"
  have g': "g' = arrive (set_position g m (map_option tile_pos new_pos')) m"
    using assms(3) Some p unfolding rationalize_unit_def new_pos_def new_pos'_def Let_def
    by auto
  have um: "unit_position (set_position g m (map_option tile_pos new_pos')) m
              = map_option tile_pos new_pos'"
    using Some by (rule unit_position_set_same)
  show ?thesis
  proof (cases "m = n")
    case True
    with assms(2) Some p have "(a, b) = tile_pos t" by (simp add: placed_def)
    then have "new_pos = t" by (simp add: new_pos_def tile_pos_def)
    moreover from assms(2) True have "board g t = Some m" by (simp add: placed_def)
    ultimately have "new_pos' = Some t" by (simp add: new_pos'_def)
    with g' True Some show ?thesis by (simp add: arrive_places)
  next
    case False
    have pos: "unit_position g' n = Some (tile_pos t)"
      using g' False assms(2) by (simp add: unit_position_set_other placed_def)
    have eff: "Arrive n \<in> set (effects g')" using g' assms(2) by (simp add: placed_def)
    have brd: "board g' t = Some n"
    proof (cases new_pos')
      case None
      with um g' assms(2) show ?thesis by (simp add: board_arrive_none placed_def)
    next
      case (Some q)
      have "board g q = None \<or> board g q = Some m"
      proof (cases "board g new_pos \<noteq> None \<and> board g new_pos \<noteq> Some m")
        case True
        with Some have "get_nearest_open_tile env g m new_pos = Some q"
          by (simp add: new_pos'_def)
        with assms(1) show ?thesis unfolding only_open_tiles_def by blast
      next
        case False
        with Some have "q = new_pos" by (simp add: new_pos'_def split: if_splits)
        with False show ?thesis by auto
      qed
      moreover from assms(2) have "board g t = Some n" by (simp add: placed_def)
      ultimately have "q \<noteq> t" using \<open>m \<noteq> n\<close> by auto
      with um Some g' \<open>board g t = Some n\<close> show ?thesis
        by (simp add: board_arrive_tile)
    qed
    from pos brd eff show ?thesis by (simp add: placed_def)
  qed
qed

lemma rationalize_targets_keeps_placed:
  assumes "only_open_tiles env"
  shows "placed g n t \<Longrightarrow> rationalize_targets env g ts = (e, g') \<Longrightarrow> placed g' n t"
proof (induction ts arbitrary: g)
  case Nil
  then show ?case by simp
next
  case (Cons m ts)
  obtain e1 g1 where r: "rationalize_unit env g m = (e1, g1)" by (cases "rationalize_unit env g m")
  from rationalize_unit_keeps_placed[OF assms Cons.prems(1) r] have p1: "placed g1 n t" .
  show ?case
  proof (cases e1)
    case None
    with Cons.prems(2) r have "rationalize_targets env g1 ts = (e, g')" by simp
    from Cons.IH[OF p1 this] show ?thesis .
  next
    case (Some err)
    with Cons.prems(2) r have "g' = g1" by simp
    with p1 show ?thesis by simp
  qed
qed

text \<open>
  Claim C4. For a roam unit that has a position, \<^verbatim>\<open>rationalize\<close> leaves the unit placed on
  a whole tile that was unoccupied: the tile its position rounds to when the board has no
  unit there, and otherwise the tile \<^verbatim>\<open>get_nearest_open_tile\<close> returns. \<^verbatim>\<open>game.arrive\<close> is
  called for the unit and the board has it on that tile, also after the roaming units of the
  AI handler have been rationalized, and even if one of those raises. When nothing raises,
  the state has no roam unit left and its speeds are zero. The hypotheses on
  \<^verbatim>\<open>get_nearest_open_tile\<close> are what the spec says of it: it returns open tiles only, and
  it finds one for the roam unit when the rounded tile is occupied.
\<close>

theorem rationalize_places_unit:
  assumes "roam_unit s = Some n" and "unit_position g n = Some (x, y)"
    and "only_open_tiles env"
    and "board g (py_round x, py_round y) \<noteq> None \<longrightarrow>
           get_nearest_open_tile env g n (py_round x, py_round y) \<noteq> None"
  shows "\<exists>err s' g' t. rationalize env s g = (err, s', g')
           \<and> (if board g (py_round x, py_round y) = None then t = (py_round x, py_round y)
               else get_nearest_open_tile env g n (py_round x, py_round y) = Some t)
           \<and> board g t = None
           \<and> placed g' n t
           \<and> (err = None \<longrightarrow> roam_unit s' = None \<and> speed s' = 0 \<and> hspeed s' = 0
                 \<and> vspeed s' = 0 \<and> last_move s' = 0)"
proof -
  define r where "r = (py_round x, py_round y)"
  define new_pos' where "new_pos' =
     (if board g r \<noteq> None then get_nearest_open_tile env g n r else Some r)"
  have "new_pos' \<noteq> None"
    using assms(4) unfolding new_pos'_def r_def by simp
  then obtain t where t: "new_pos' = Some t" by blast
  have choice: "if board g r = None then t = r else get_nearest_open_tile env g n r = Some t"
    using t by (auto simp: new_pos'_def split: if_splits)
  have "board g t = None"
  proof (cases "board g r = None")
    case True
    with choice show ?thesis by simp
  next
    case False
    with choice have "get_nearest_open_tile env g n r = Some t" by simp
    with assms(3) show ?thesis unfolding only_open_tiles_def by blast
  qed
  define g1 where "g1 = arrive (set_position g n (Some (tile_pos t))) n"
  have p1: "placed g1 n t" unfolding g1_def using assms(2) by (rule arrive_places)
  obtain e2 g2 where l: "rationalize_targets env g1 (targets s) = (e2, g2)"
    by (cases "rationalize_targets env g1 (targets s)")
  from rationalize_targets_keeps_placed[OF assms(3) p1 l] have p2: "placed g2 n t" .
  have res: "rationalize env s g =
     (case e2 of
        Some e \<Rightarrow> (Some e, s, g2)
      | None \<Rightarrow> (None, s\<lparr>speed := 0, vspeed := 0, hspeed := 0, roam_unit := None,
                          last_move := 0\<rparr>, g2))"
    using assms(1,2) t l unfolding rationalize_def Let_def new_pos'_def r_def g1_def
    by (simp split: option.splits)
  define s1 where
    "s1 = s\<lparr>speed := 0, vspeed := 0, hspeed := 0, roam_unit := None, last_move := 0\<rparr>"
  have f: "roam_unit s1 = None \<and> speed s1 = 0 \<and> hspeed s1 = 0 \<and> vspeed s1 = 0
             \<and> last_move s1 = 0" by (simp add: s1_def)
  note choice' = choice[unfolded r_def]
  show ?thesis
  proof (cases e2)
    case None
    with res have "rationalize env s g = (None, s1, g2)" by (simp add: s1_def)
    with choice' \<open>board g t = None\<close> p2 f show ?thesis by blast
  next
    case (Some e)
    with res have "rationalize env s g = (Some e, s, g2)" by simp
    with choice' \<open>board g t = None\<close> p2 show ?thesis by blast
  qed
qed

lemma demo_only_open_tiles: "only_open_tiles (roam_demo_env keys)"
  unfolding only_open_tiles_def roam_demo_env_def
  by (auto simp: find_Some_iff)

theorem rationalize_places_unit_witness:
  "(\<exists>err s' g'. rationalize (roam_demo_env left_only) roam_demo_state_seth roam_demo_game
                  = (err, s', g')
      \<and> board roam_demo_game (2, 3) = Some ''Bandit''
      \<and> board roam_demo_game (3, 3) = None
      \<and> unit_position g' ''Eirika'' = Some (3, 3)
      \<and> board g' (3, 3) = Some ''Eirika''
      \<and> Arrive ''Eirika'' \<in> set (effects g'))
   \<and> (\<exists>err s' g'. rationalize (roam_demo_env left_only) roam_demo_state empty_board_game
                  = (err, s', g')
      \<and> unit_position g' ''Eirika'' = Some (2, 3)
      \<and> board g' (2, 3) = Some ''Eirika''
      \<and> Arrive ''Eirika'' \<in> set (effects g'))"
proof -
  let ?env = "roam_demo_env left_only"
  have ru: "roam_unit roam_demo_state_seth = Some ''Eirika''"
    "roam_unit roam_demo_state = Some ''Eirika''"
    by (simp_all add: roam_demo_state_seth_def roam_demo_state_def)
  have up: "unit_position roam_demo_game ''Eirika'' = Some (25 / 10, 33 / 10)"
    "unit_position empty_board_game ''Eirika'' = Some (25 / 10, 33 / 10)"
    by (simp_all add: unit_position_def empty_board_game_def roam_demo_game_def roamer_def)
  have rd: "(py_round (25 / 10), py_round (33 / 10)) = (2, 3)"
    by (simp add: py_round_def Let_def)
  have occ: "board roam_demo_game (2, 3) = Some ''Bandit''" "board roam_demo_game (3, 3) = None"
    "board empty_board_game (2, 3) = None"
    by (simp_all add: roam_demo_game_def empty_board_game_def)
  have near: "get_nearest_open_tile ?env roam_demo_game ''Eirika'' (2, 3) = Some (3, 3)"
    by (simp add: roam_demo_env_def roam_demo_game_def)
  have h1: "board roam_demo_game (py_round (25 / 10), py_round (33 / 10)) \<noteq> None \<longrightarrow>
           get_nearest_open_tile ?env roam_demo_game ''Eirika''
             (py_round (25 / 10), py_round (33 / 10)) \<noteq> None"
    unfolding rd using near by simp
  have h2: "board empty_board_game (py_round (25 / 10), py_round (33 / 10)) \<noteq> None \<longrightarrow>
           get_nearest_open_tile ?env empty_board_game ''Eirika''
             (py_round (25 / 10), py_round (33 / 10)) \<noteq> None"
    unfolding rd using occ(3) by simp
  from rationalize_places_unit[OF ru(1) up(1) demo_only_open_tiles h1]
  obtain err s' g' t where
    a: "rationalize ?env roam_demo_state_seth roam_demo_game = (err, s', g')"
    and b: "if board roam_demo_game (py_round (25 / 10), py_round (33 / 10)) = None
            then t = (py_round (25 / 10), py_round (33 / 10))
            else get_nearest_open_tile ?env roam_demo_game ''Eirika''
                   (py_round (25 / 10), py_round (33 / 10)) = Some t"
    and c: "placed g' ''Eirika'' t" by blast
  from b have "t = (3, 3)" unfolding rd using occ(1) near by simp
  with c have c': "unit_position g' ''Eirika'' = Some (3, 3)" "board g' (3, 3) = Some ''Eirika''"
    "Arrive ''Eirika'' \<in> set (effects g')"
    by (simp_all add: placed_def tile_pos_def)
  from rationalize_places_unit[OF ru(2) up(2) demo_only_open_tiles h2]
  obtain err2 s2 g2 t2 where
    a2: "rationalize ?env roam_demo_state empty_board_game = (err2, s2, g2)"
    and b2: "if board empty_board_game (py_round (25 / 10), py_round (33 / 10)) = None
            then t2 = (py_round (25 / 10), py_round (33 / 10))
            else get_nearest_open_tile ?env empty_board_game ''Eirika''
                   (py_round (25 / 10), py_round (33 / 10)) = Some t2"
    and c2: "placed g2 ''Eirika'' t2" by blast
  from b2 have "t2 = (2, 3)" unfolding rd using occ(3) by simp
  with c2 have c2': "unit_position g2 ''Eirika'' = Some (2, 3)"
    "board g2 (2, 3) = Some ''Eirika''" "Arrive ''Eirika'' \<in> set (effects g2)"
    by (simp_all add: placed_def tile_pos_def)
  from a c' occ(1,2) a2 c2' show ?thesis by blast
qed

subsection \<open>Regions that interrupt the movement\<close>

lemma rationalize_unit_frame:
  "rationalize_unit env g m = (e, g') \<Longrightarrow>
   level_regions g' = level_regions g \<and> (\<exists>xs. effects g' = effects g @ xs)"
  by (auto simp: rationalize_unit_def Let_def split: option.splits)

lemma rationalize_targets_frame:
  "rationalize_targets env g ts = (e, g') \<Longrightarrow>
   level_regions g' = level_regions g \<and> (\<exists>xs. effects g' = effects g @ xs)"
proof (induction ts arbitrary: g)
  case Nil
  then show ?case by simp
next
  case (Cons m ts)
  obtain e1 g1 where r: "rationalize_unit env g m = (e1, g1)" by (cases "rationalize_unit env g m")
  from rationalize_unit_frame[OF r] obtain xs where
    f1: "level_regions g1 = level_regions g" "effects g1 = effects g @ xs" by blast
  show ?case
  proof (cases e1)
    case None
    with Cons.prems r have "rationalize_targets env g1 ts = (e, g')" by simp
    from Cons.IH[OF this] f1 show ?thesis by auto
  next
    case (Some err)
    with Cons.prems r have "g' = g1" by simp
    with f1 show ?thesis by simp
  qed
qed

lemma rationalize_frame:
  assumes "rationalize env s g = (e, s', g')"
  shows "level_regions g' = level_regions g \<and> (\<exists>xs. effects g' = effects g @ xs)"
proof (cases "roam_unit s")
  case None
  with assms show ?thesis by (simp add: rationalize_def)
next
  case (Some n)
  show ?thesis
  proof (cases "unit_position g n")
    case None
    with Some assms show ?thesis by (simp add: rationalize_def)
  next
    case (Some p)
    obtain x y where p: "p = (x, y)" by (cases p)
    define g1 where "g1 = arrive (set_position g n (map_option tile_pos
        (if board g (py_round x, py_round y) \<noteq> None
         then get_nearest_open_tile env g n (py_round x, py_round y)
         else Some (py_round x, py_round y)))) n"
    obtain e2 g2 where l: "rationalize_targets env g1 (targets s) = (e2, g2)"
      by (cases "rationalize_targets env g1 (targets s)")
    have "g' = g2"
      using assms \<open>roam_unit s = Some n\<close> Some p l
      unfolding rationalize_def Let_def g1_def by (auto split: option.splits)
    moreover have "level_regions g1 = level_regions g" "effects g1 = effects g @ [Arrive n]"
      by (simp_all add: g1_def)
    ultimately show ?thesis using rationalize_targets_frame[OF l] by auto
  qed
qed

lemma relocate_occupied_some:
  assumes "board g t = Some occ" and "roam_unit s = Some n"
  shows "relocate_occupied env (Some t) s g =
     (None, get_nearest_open_tile env g occ t,
      set_position g n (map_option tile_pos (get_nearest_open_tile env g occ t)))"
  using assms by (simp add: relocate_occupied_def Let_def)

lemma relocate_occupied_free:
  assumes "board g t = None"
  shows "relocate_occupied env (Some t) s g = (None, Some t, g)"
  using assms by (simp add: relocate_occupied_def Let_def)

lemma fire_interrupt_quiet:
  assumes "roam_unit s = Some n"
    and "\<not> events_trigger env g ''roaming_interrupt'' n (unit_position g n) (region_nid region)"
  shows "fire_interrupt env region s g =
     (None, s, g\<lparr>effects := effects g @
                  [Trigger ''roaming_interrupt'' n (unit_position g n) (region_nid region)]\<rparr>)"
  using assms by (simp add: fire_interrupt_def)

lemma fire_interrupt_fired:
  assumes "roam_unit s = Some n"
    and "events_trigger env g ''roaming_interrupt'' n (unit_position g n) (region_nid region)"
  shows "\<exists>err s' g' xs. fire_interrupt env region s g = (err, s', g')
           \<and> effects g' = effects g @
                 Trigger ''roaming_interrupt'' n (unit_position g n) (region_nid region) # xs
           \<and> (err = None \<longrightarrow>
                level_regions g' =
                  (if only_once region
                   then filter (\<lambda>r'. region_nid r' \<noteq> region_nid region) (level_regions g)
                   else level_regions g))
           \<and> (err \<noteq> None \<longrightarrow> level_regions g' = level_regions g)"
proof -
  define g2 where "g2 = g\<lparr>effects := effects g @
       [Trigger ''roaming_interrupt'' n (unit_position g n) (region_nid region)]\<rparr>"
  obtain e3 s3 g3 where r: "rationalize env s g2 = (e3, s3, g3)"
    by (cases "rationalize env s g2") auto
  from rationalize_frame[OF r] obtain xs where
    f: "level_regions g3 = level_regions g" "effects g3 = effects g2 @ xs"
    by (auto simp: g2_def)
  have e2: "effects g2 = effects g @
       [Trigger ''roaming_interrupt'' n (unit_position g n) (region_nid region)]"
    by (simp add: g2_def)
  show ?thesis
  proof (cases e3)
    case None
    have "fire_interrupt env region s g =
        (None, s3, if only_once region then remove_region g3 region else g3)"
      using assms r None unfolding fire_interrupt_def g2_def Let_def by simp
    with f e2 show ?thesis by (auto simp: remove_region_def)
  next
    case (Some e)
    have "fire_interrupt env region s g = (Some e, s3, g3)"
      using assms r Some unfolding fire_interrupt_def g2_def Let_def by simp
    with f e2 show ?thesis by auto
  qed
qed

text \<open>
  Claim C9, as the code has it. When the rounded position \<open>t\<close> of the roam unit lies in a
  region with \<^verbatim>\<open>interrupt_move\<close>: if the board has a unit on \<open>t\<close>, it is the roam unit, not
  the occupant, that is moved, to the tile \<^verbatim>\<open>get_nearest_open_tile\<close> returns for the
  occupant, and the occupant stays where it is; the trigger \<^verbatim>\<open>roaming_interrupt\<close> is fired
  next, for the roam unit at its new position; and, unless \<^verbatim>\<open>rationalize\<close> raises, the
  region is removed from the level exactly when it is marked \<^verbatim>\<open>only_once\<close> and the trigger
  fired an event. When no event fires, nothing else changes.
\<close>

theorem interrupt_region_moves_roam_unit:
  fixes env :: roam_env and s :: free_roam_state and g :: game and region :: region
    and t :: pos and n :: nid
  defines "q \<equiv> (case board g t of None \<Rightarrow> Some t
                 | Some occ \<Rightarrow> get_nearest_open_tile env g occ t)"
  defines "g1 \<equiv> (case board g t of None \<Rightarrow> g
                  | Some occ \<Rightarrow> set_position g n (map_option tile_pos q))"
  defines "fired \<equiv>
     events_trigger env g1 ''roaming_interrupt'' n (unit_position g1 n) (region_nid region)"
  assumes "contains region (Some t) = Inr True" and "interrupt_move region"
    and "roam_unit s = Some n" and "units g n \<noteq> None"
  shows "\<exists>err s' g' xs. interrupt_region env region (Some t, s, g) = (err, q, s', g')
           \<and> (\<forall>occ. board g t = Some occ \<longrightarrow>
                  unit_position g1 n = map_option tile_pos q
                \<and> (occ \<noteq> n \<longrightarrow> unit_position g1 occ = unit_position g occ))
           \<and> effects g' = effects g @
                 Trigger ''roaming_interrupt'' n (unit_position g1 n) (region_nid region) # xs
           \<and> (err = None \<longrightarrow>
                level_regions g' =
                  (if only_once region \<and> fired
                   then filter (\<lambda>r'. region_nid r' \<noteq> region_nid region) (level_regions g)
                   else level_regions g))
           \<and> (err \<noteq> None \<longrightarrow> level_regions g' = level_regions g)
           \<and> (\<not> fired \<longrightarrow> err = None \<and> s' = s \<and> xs = [] \<and> units g' = units g1)"
proof -
  have rel: "relocate_occupied env (Some t) s g = (None, q, g1)"
    using assms(6) unfolding q_def g1_def
    by (cases "board g t") (simp_all add: relocate_occupied_def Let_def)
  have pos: "\<forall>occ. board g t = Some occ \<longrightarrow>
                  unit_position g1 n = map_option tile_pos q
                \<and> (occ \<noteq> n \<longrightarrow> unit_position g1 occ = unit_position g occ)"
    using assms(7) unfolding g1_def
    by (auto simp: unit_position_def set_position_def)
  have lr: "level_regions g1 = level_regions g" "effects g1 = effects g"
    unfolding g1_def by (simp_all split: option.splits)
  have step: "interrupt_region env region (Some t, s, g) =
     (case fire_interrupt env region s g1 of (err, s', g') \<Rightarrow> (err, q, s', g'))"
    using assms(4,5) rel by (simp add: interrupt_region_def split: prod.splits)
  show ?thesis
  proof (cases fired)
    case True
    from fire_interrupt_fired[OF assms(6), of env g1 region] True
    obtain err s' g' xs where
      f: "fire_interrupt env region s g1 = (err, s', g')"
      and e: "effects g' = effects g1 @
                 Trigger ''roaming_interrupt'' n (unit_position g1 n) (region_nid region) # xs"
      and l: "err = None \<longrightarrow>
                level_regions g' =
                  (if only_once region
                   then filter (\<lambda>r'. region_nid r' \<noteq> region_nid region) (level_regions g1)
                   else level_regions g1)"
      and l': "err \<noteq> None \<longrightarrow> level_regions g' = level_regions g1"
      unfolding fired_def by blast
    from step f have "interrupt_region env region (Some t, s, g) = (err, q, s', g')" by simp
    with pos e l l' lr True show ?thesis by auto
  next
    case False
    define g2 where "g2 = g1\<lparr>effects := effects g1 @
                  [Trigger ''roaming_interrupt'' n (unit_position g1 n) (region_nid region)]\<rparr>"
    from fire_interrupt_quiet[OF assms(6), of env g1 region] False
    have f: "fire_interrupt env region s g1 = (None, s, g2)"
      unfolding fired_def g2_def by simp
    from step f have r: "interrupt_region env region (Some t, s, g) = (None, q, s, g2)" by simp
    have "effects g2 = effects g @
            Trigger ''roaming_interrupt'' n (unit_position g1 n) (region_nid region) # []"
      "level_regions g2 = level_regions g" "units g2 = units g1"
      using lr by (simp_all add: g2_def)
    with r pos False show ?thesis by auto
  qed
qed

lemma demo_relocate:
  "relocate_occupied (roam_demo_env left_only) (Some (2, 3)) roam_demo_state region_demo_game
     = (None, Some (3, 3), set_position region_demo_game ''Eirika'' (Some (3, 3)))"
  by (simp add: relocate_occupied_def Let_def roam_demo_env_def region_demo_game_def
      roam_demo_game_def roam_demo_state_def tile_pos_def)

lemma demo_rationalize:
  "rationalize (roam_demo_env left_only) roam_demo_state
     ((set_position region_demo_game ''Eirika'' (Some (3, 3)))
        \<lparr>effects := [Trigger ''roaming_interrupt'' ''Eirika'' (Some (3, 3)) ''Gate'']\<rparr>)
   = (None,
      roam_demo_state\<lparr>speed := 0, vspeed := 0, hspeed := 0, roam_unit := None, last_move := 0\<rparr>,
      arrive ((set_position region_demo_game ''Eirika'' (Some (3, 3)))
        \<lparr>effects := [Trigger ''roaming_interrupt'' ''Eirika'' (Some (3, 3)) ''Gate'']\<rparr>)
        ''Eirika'')"
proof -
  let ?g = "(set_position region_demo_game ''Eirika'' (Some (3, 3)))
        \<lparr>effects := [Trigger ''roaming_interrupt'' ''Eirika'' (Some (3, 3)) ''Gate'']\<rparr>"
  have up: "unit_position ?g ''Eirika'' = Some (3, 3)"
    by (simp add: unit_position_def set_position_def region_demo_game_def roam_demo_game_def)
  have r: "py_round 3 = 3" by (simp add: py_round_def)
  have b: "board region_demo_game (3, 3) = None"
    by (simp add: region_demo_game_def roam_demo_game_def)
  have sp: "set_position ?g ''Eirika'' (Some (tile_pos (3, 3))) = ?g"
    by (simp add: set_position_def tile_pos_def region_demo_game_def roam_demo_game_def
        fun_eq_iff)
  show ?thesis
    unfolding rationalize_def
    by (simp add: up r b sp Let_def roam_demo_state_def)
qed

lemma demo_interrupt:
  "interrupt_region (roam_demo_env left_only) demo_region
     (Some (2, 3), roam_demo_state, region_demo_game)
   = (None, Some (3, 3),
      roam_demo_state\<lparr>speed := 0, vspeed := 0, hspeed := 0, roam_unit := None, last_move := 0\<rparr>,
      interrupted_game)"
proof -
  let ?g1 = "set_position region_demo_game ''Eirika'' (Some (3, 3))"
  have c: "contains demo_region (Some (2, 3)) = Inr True" "interrupt_move demo_region"
    "only_once demo_region" "region_nid demo_region = ''Gate''"
    by (simp_all add: demo_region_def)
  have up: "unit_position ?g1 ''Eirika'' = Some (3, 3)"
    by (simp add: unit_position_def set_position_def region_demo_game_def roam_demo_game_def)
  have e: "effects region_demo_game = []"
    by (simp add: region_demo_game_def roam_demo_game_def)
  have tr: "events_trigger (roam_demo_env left_only) ?g1 ''roaming_interrupt'' ''Eirika''
              (Some (3, 3)) ''Gate''"
    by (simp add: roam_demo_env_def)
  have ru: "roam_unit roam_demo_state = Some ''Eirika''" by (simp add: roam_demo_state_def)
  have f: "fire_interrupt (roam_demo_env left_only) demo_region roam_demo_state ?g1
     = (None,
        roam_demo_state\<lparr>speed := 0, vspeed := 0, hspeed := 0, roam_unit := None,
          last_move := 0\<rparr>,
        interrupted_game)"
    unfolding fire_interrupt_def interrupted_game_def
    by (simp add: ru up e c tr demo_rationalize Let_def)
  show ?thesis
    unfolding interrupt_region_def
    by (simp add: c demo_relocate f)
qed

lemma interrupted_game_facts:
  "unit_position interrupted_game ''Bandit'' = Some (2, 3)"
  "unit_position interrupted_game ''Eirika'' = Some (3, 3)"
  "level_regions interrupted_game = []"
  "effects interrupted_game =
     [Trigger ''roaming_interrupt'' ''Eirika'' (Some (3, 3)) ''Gate'', Arrive ''Eirika'',
      RemoveRegion ''Gate'']"
  by (simp_all add: interrupted_game_def remove_region_def arrive_def unit_position_def
      set_position_def region_demo_game_def roam_demo_game_def demo_region_def)

text \<open>
  The claim as stated fails: the enemy on \<open>(2, 3)\<close> is the occupant, the nearest open tile
  is \<open>(3, 3)\<close>, and after the region has interrupted the movement and its event has fired the
  occupant is still on \<open>(2, 3)\<close>; the unit on \<open>(3, 3)\<close> is the roam unit.
\<close>

theorem interrupt_region_occupant_stays:
  "board region_demo_game (2, 3) = Some ''Bandit''
   \<and> unit_position region_demo_game ''Bandit'' = Some (2, 3)
   \<and> get_nearest_open_tile (roam_demo_env left_only) region_demo_game ''Bandit'' (2, 3)
       = Some (3, 3)
   \<and> interrupt_region (roam_demo_env left_only) demo_region
        (Some (2, 3), roam_demo_state, region_demo_game)
       = (None, Some (3, 3),
          roam_demo_state\<lparr>speed := 0, vspeed := 0, hspeed := 0, roam_unit := None,
            last_move := 0\<rparr>,
          interrupted_game)
   \<and> unit_position interrupted_game ''Bandit'' = Some (2, 3)
   \<and> unit_position interrupted_game ''Bandit'' \<noteq> Some (3, 3)
   \<and> unit_position interrupted_game ''Eirika'' = Some (3, 3)
   \<and> effects interrupted_game =
       [Trigger ''roaming_interrupt'' ''Eirika'' (Some (3, 3)) ''Gate'', Arrive ''Eirika'',
        RemoveRegion ''Gate'']"
proof -
  have "board region_demo_game (2, 3) = Some ''Bandit''"
    "unit_position region_demo_game ''Bandit'' = Some (2, 3)"
    "get_nearest_open_tile (roam_demo_env left_only) region_demo_game ''Bandit'' (2, 3)
       = Some (3, 3)"
    by (simp_all add: region_demo_game_def roam_demo_game_def roam_demo_env_def
        unit_position_def)
  then show ?thesis using demo_interrupt interrupted_game_facts by simp
qed

theorem interrupt_region_moves_roam_unit_witness:
  "(\<exists>s' g' xs. interrupt_region (roam_demo_env left_only) demo_region
                  (Some (2, 3), roam_demo_state, region_demo_game)
                = (None, Some (3, 3), s', g')
      \<and> effects g' = Trigger ''roaming_interrupt'' ''Eirika'' (Some (3, 3)) ''Gate'' # xs
      \<and> level_regions g' = [])
   \<and> (\<exists>g' . interrupt_region quiet_env demo_region
                  (Some (2, 3), roam_demo_state, region_demo_game)
                = (None, Some (3, 3), roam_demo_state, g')
      \<and> effects g' = [Trigger ''roaming_interrupt'' ''Eirika'' (Some (3, 3)) ''Gate'']
      \<and> level_regions g' = [demo_region]
      \<and> unit_position g' ''Bandit'' = Some (2, 3)
      \<and> unit_position g' ''Eirika'' = Some (3, 3))"
proof -
  let ?env = "roam_demo_env left_only"
  have c: "contains demo_region (Some (2, 3)) = Inr True" "interrupt_move demo_region"
    by (simp_all add: demo_region_def)
  have ru: "roam_unit roam_demo_state = Some ''Eirika''" by (simp add: roam_demo_state_def)
  have un: "units region_demo_game ''Eirika'' \<noteq> None"
    by (simp add: region_demo_game_def roam_demo_game_def)
  have b: "board region_demo_game (2, 3) = Some ''Bandit''"
    by (simp add: region_demo_game_def roam_demo_game_def)
  have q: "get_nearest_open_tile ?env region_demo_game ''Bandit'' (2, 3) = Some (3, 3)"
    "get_nearest_open_tile quiet_env region_demo_game ''Bandit'' (2, 3) = Some (3, 3)"
    by (simp_all add: quiet_env_def roam_demo_env_def region_demo_game_def roam_demo_game_def)
  have misc: "effects region_demo_game = []" "level_regions region_demo_game = [demo_region]"
    "only_once demo_region" "region_nid demo_region = ''Gate''"
    "unit_position region_demo_game ''Bandit'' = Some (2, 3)"
    "tile_pos (3, 3) = (3, 3)"
    by (simp_all add: region_demo_game_def roam_demo_game_def demo_region_def tile_pos_def
        unit_position_def)
  have fires: "events_trigger ?env g name n p r" for g name n p r
    by (simp add: roam_demo_env_def)
  have quiet: "\<not> events_trigger quiet_env g name n p r" for g name n p r
    by (simp add: quiet_env_def)
  from interrupt_region_moves_roam_unit[OF c ru un, of ?env]
  obtain err s' g' xs where
    r: "interrupt_region ?env demo_region (Some (2, 3), roam_demo_state, region_demo_game)
          = (err, Some (3, 3), s', g')"
    and e: "effects g' = Trigger ''roaming_interrupt'' ''Eirika'' (Some (3, 3)) ''Gate'' # xs"
    and l: "err = None \<longrightarrow> level_regions g' = []"
    by (auto simp: b q misc fires)
  from r demo_interrupt have "err = None" by simp
  with r e l have first: "\<exists>s' g' xs. interrupt_region ?env demo_region
                  (Some (2, 3), roam_demo_state, region_demo_game)
                = (None, Some (3, 3), s', g')
      \<and> effects g' = Trigger ''roaming_interrupt'' ''Eirika'' (Some (3, 3)) ''Gate'' # xs
      \<and> level_regions g' = []" by blast
  from interrupt_region_moves_roam_unit[OF c ru un, of quiet_env]
  obtain g2 where
    r2: "interrupt_region quiet_env demo_region (Some (2, 3), roam_demo_state, region_demo_game)
          = (None, Some (3, 3), roam_demo_state, g2)"
    and e2: "effects g2 = [Trigger ''roaming_interrupt'' ''Eirika'' (Some (3, 3)) ''Gate'']"
    and l2: "level_regions g2 = [demo_region]"
    and u2: "units g2 = units (set_position region_demo_game ''Eirika'' (Some (3, 3)))"
    by (auto simp: b q misc quiet)
  from u2 have "unit_position g2 ''Bandit'' = Some (2, 3)"
    "unit_position g2 ''Eirika'' = Some (3, 3)"
    by (simp_all add: unit_position_def set_position_def region_demo_game_def
        roam_demo_game_def)
  with r2 e2 l2 have second: "\<exists>g' . interrupt_region quiet_env demo_region
                  (Some (2, 3), roam_demo_state, region_demo_game)
                = (None, Some (3, 3), roam_demo_state, g')
      \<and> effects g' = [Trigger ''roaming_interrupt'' ''Eirika'' (Some (3, 3)) ''Gate'']
      \<and> level_regions g' = [demo_region]
      \<and> unit_position g' ''Bandit'' = Some (2, 3)
      \<and> unit_position g' ''Eirika'' = Some (3, 3)" by blast
  from first second show ?thesis by blast
qed

end
